theory Spec2Isabelle
  imports Main
begin

section \<open>The driver interface\<close>

text \<open>
  The two scripts of the repository drive a headless browser through a promise-returning
  interface. The embedding takes the browser, the file system and the process environment
  as one value, the \<open>world\<close>: every call of the scripts reads its answer there. Answers
  that may change while the script runs are indexed by the clock reading at which the call
  is made. The clock is advanced by the waits the scripts themselves perform (\<open>sleep\<close>,
  and the settling of an awaited wait promise); the other driver calls are taken to answer
  at the clock reading at which they are made.
\<close>

type_synonym time = nat

text \<open>A JavaScript \<open>Error\<close> object: its \<open>name\<close> and its \<open>message\<close>.\<close>

datatype js_error = JsError (err_name: string) (err_message: string)

text \<open>The page itself, or one of the frames \<open>page.frames()\<close> reports.\<close>

datatype ctx = Page | Frame nat

type_synonym handle = nat

text \<open>What \<open>boundingBox()\<close> resolves to when it is not \<open>null\<close>: x, y, width, height.\<close>

datatype box = Box int int int int

datatype response = Response (status: nat) (statusText: string)

text \<open>
  A promise of one of the two waits, by how it settles: the milliseconds it takes, and
  the rejection reason when it rejects (a timeout is a rejection).
\<close>

datatype settled = Fulfilled nat | Rejected nat js_error

record world =
  STREAMLIT_URL :: "string option"
  SUMMARY_PATH :: "string option"
  t0 :: time
  launch :: "js_error option"
  newPage :: "js_error option"
  setUserAgent :: "js_error option"
  setViewport :: "js_error option"
  goto :: "js_error + response option"
  frames :: "time \<Rightarrow> nat list"
  frame_url :: "time \<Rightarrow> nat \<Rightarrow> string"
  query :: "time \<Rightarrow> ctx \<Rightarrow> js_error + handle option"
  scrollIntoView :: "time \<Rightarrow> handle \<Rightarrow> js_error option"
  boundingBox :: "time \<Rightarrow> handle \<Rightarrow> js_error + box option"
  isIntersectingViewport :: "time \<Rightarrow> handle \<Rightarrow> js_error + bool"
  click :: "time \<Rightarrow> handle \<Rightarrow> js_error option"
  waitForFunction :: "time \<Rightarrow> ctx \<Rightarrow> settled"
  waitForNavigation :: "time \<Rightarrow> settled"
  close :: "js_error option"
  appendFile :: "js_error option"

section \<open>What a run does: events, state, completions\<close>

text \<open>The call sites of \<open>sleep\<close> in the retrying script, in source order.\<close>

datatype sleep_site = Settle | PreClick | PollInterval | ReadyGrace | Backoff

text \<open>The template literals passed to \<open>console.log\<close>, with their parameters.\<close>

datatype log_msg =
    Starting string
  | InitialResponse nat string
  | WaitingToSettle nat
  | Detected string
  | DetectedPlain
  | NotFoundAlreadyAwake nat nat
  | SucceededAlreadyAwake nat
  | ClickedWaiting string nat nat
  | Disappeared
  | StillPresentRetrying nat nat
  | Succeeded nat "string option"
  | SucceededPlain nat bool

datatype event =
    ConsoleLog log_msg
  | ConsoleWarn string
  | ConsoleError string
  | ConsoleErrorObj js_error
  | Launch
  | Click ctx handle
  | Requery ctx "js_error + handle option"
  | Sleep sleep_site nat
  | AppendFile string string
  | Close

record state =
  now :: time
  trace :: "event list"
  browser :: bool
  lastClickedLabel :: "string option"
  lastClickedContext :: "ctx option"

text \<open>
  How a piece of the script ends: normally with a value, by a thrown error (a rejected
  promise that is awaited), or by \<open>process.exit\<close>, which ends the process at once: no
  \<open>catch\<close> and no \<open>finally\<close> block runs after it.
\<close>

datatype 'a completion = Normal 'a | Throw js_error | ProcessExit nat

type_synonym 'a outcome = "'a completion \<times> state"

definition bind :: "'a outcome \<Rightarrow> ('a \<Rightarrow> state \<Rightarrow> 'b outcome) \<Rightarrow> 'b outcome" where
  "bind r f =
     (case r of
        (Normal v, s) \<Rightarrow> f v s
      | (Throw e, s) \<Rightarrow> (Throw e, s)
      | (ProcessExit c, s) \<Rightarrow> (ProcessExit c, s))"

text \<open>Awaiting a driver call that resolves to nothing of interest.\<close>

definition await_unit :: "js_error option \<Rightarrow> state \<Rightarrow> unit outcome" where
  "await_unit r s = (case r of None \<Rightarrow> (Normal (), s) | Some e \<Rightarrow> (Throw e, s))"

definition emit :: "event \<Rightarrow> state \<Rightarrow> state" where
  "emit e s = s\<lparr>trace := trace s @ [e]\<rparr>"

definition sleep :: "sleep_site \<Rightarrow> nat \<Rightarrow> state \<Rightarrow> state" where
  "sleep site ms s = s\<lparr>now := now s + ms, trace := trace s @ [Sleep site ms]\<rparr>"

section \<open>Constants and string helpers\<close>

definition PAGE_LOAD_GRACE_PERIOD_MS :: nat where "PAGE_LOAD_GRACE_PERIOD_MS = 5000"
definition WAKE_BUTTON_POLL_TIMEOUT_MS :: nat where "WAKE_BUTTON_POLL_TIMEOUT_MS = 60000"
definition WAKE_BUTTON_POLL_INTERVAL_MS :: nat where "WAKE_BUTTON_POLL_INTERVAL_MS = 1000"
definition WAKE_MAX_ATTEMPTS :: nat where "WAKE_MAX_ATTEMPTS = 3"
definition WAKE_RETRY_BACKOFF_BASE_MS :: nat where "WAKE_RETRY_BACKOFF_BASE_MS = 2000"
definition WAKE_READY_TIMEOUT_MS :: nat where "WAKE_READY_TIMEOUT_MS = 120000"

text \<open>The reasons passed to \<open>fail\<close>, and the messages of the errors the script throws.\<close>

definition reason_url_required :: string where
  "reason_url_required = ''STREAMLIT_URL env var is required''"
definition reason_not_ready :: string where
  "reason_not_ready = ''Wake-up button clicked but app did not become ready in time''"
definition reason_still_present :: string where
  "reason_still_present =
     ''Wake-up button still present after all wake attempts; app may still be sleeping''"
definition reason_failed :: string where
  "reason_failed = ''Failed to keep Streamlit app awake''"
definition msg_no_response :: string where
  "msg_no_response = ''No response received from the Streamlit app''"

text \<open>An environment variable is falsy when it is undefined or the empty string.\<close>

fun or_else :: "string option \<Rightarrow> string \<Rightarrow> string" where
  "or_else None d = d"
| "or_else (Some v) d = (if v = [] then d else v)"

fun truthy :: "string option \<Rightarrow> bool" where
  "truthy None = False"
| "truthy (Some v) = (v \<noteq> [])"

fun starts_with :: "string \<Rightarrow> string \<Rightarrow> bool" where
  "starts_with s [] = True"
| "starts_with [] (p # ps) = False"
| "starts_with (c # cs) (p # ps) = (c = p \<and> starts_with cs ps)"

text \<open>\<open>String.prototype.includes\<close>.\<close>

fun str_includes :: "string \<Rightarrow> string \<Rightarrow> bool" where
  "str_includes [] p = (p = [])"
| "str_includes (c # cs) p = (starts_with (c # cs) p \<or> str_includes cs p)"

text \<open>\<open>Array.prototype.join\<close>.\<close>

fun join :: "string \<Rightarrow> string list \<Rightarrow> string" where
  "join sep [] = []"
| "join sep [l] = l"
| "join sep (l # m # ls) = l @ sep @ join sep (m # ls)"

text \<open>A number in a template literal: its decimal digits.\<close>

fun show_nat :: "nat \<Rightarrow> string" where
  "show_nat n =
     (if n < 10 then [''0123456789'' ! n]
      else show_nat (n div 10) @ [''0123456789'' ! (n mod 10)])"

section \<open>The failure report\<close>

definition buildFailureSummary :: "string list \<Rightarrow> string" where
  "buildFailureSummary lines =
     join [CHR 0x0A]
       ([''### Streamlit keepalive failed'', ''''] @ map (\<lambda>line. ''- '' @ line) lines @ [''''])"

definition appendFailureSummary :: "world \<Rightarrow> string list \<Rightarrow> state \<Rightarrow> state" where
  "appendFailureSummary w lines s =
     (if \<not> truthy (SUMMARY_PATH w) then
        emit (ConsoleWarn ''GITHUB_STEP_SUMMARY is not set; skipping summary output.'') s
      else
        (let s1 = emit (AppendFile (or_else (SUMMARY_PATH w) []) (buildFailureSummary lines)) s
         in case appendFile w of
              None \<Rightarrow> s1
            | Some writeError \<Rightarrow>
                emit (ConsoleErrorObj writeError)
                  (emit (ConsoleError ''Failed to write failure summary:'') s1)))"

text \<open>\<open>err.message || err\<close> inside a template literal.\<close>

definition message_or_err :: "js_error \<Rightarrow> string" where
  "message_or_err err = (if err_message err \<noteq> [] then err_message err else err_name err)"

definition fail :: "world \<Rightarrow> string \<Rightarrow> js_error option \<Rightarrow> state \<Rightarrow> 'a outcome" where
  "fail w reason err s =
     (let s1 = emit (ConsoleError reason) s;
          s2 = (case err of None \<Rightarrow> s1 | Some e \<Rightarrow> emit (ConsoleErrorObj e) s1);
          s3 = appendFailureSummary w
                 ([''URL: '' @ or_else (STREAMLIT_URL w) ''not set'', ''Reason: '' @ reason]
                  @ (case err of None \<Rightarrow> [] | Some e \<Rightarrow> [''Error: '' @ message_or_err e]))
                 s2
      in (ProcessExit 1, s3))"

section \<open>The retrying script\<close>

subsection \<open>Locating and clicking the wake-up button\<close>

definition frame_label :: "world \<Rightarrow> time \<Rightarrow> nat \<Rightarrow> string" where
  "frame_label w t f = ''frame '' @ (if frame_url w t f = [] then ''[no URL]'' else frame_url w t f)"

definition contexts :: "world \<Rightarrow> time \<Rightarrow> (ctx \<times> string) list" where
  "contexts w t = (Page, ''main page'') # map (\<lambda>f. (Frame f, frame_label w t f)) (frames w t)"

text \<open>
  The \<open>for\<close> loop over the contexts of one poll. It ends with the clicked context and its
  label (the \<open>break\<close>), with \<open>None\<close> when the list is exhausted, or by the first
  rejection of a driver call.
\<close>

fun scan :: "world \<Rightarrow> (ctx \<times> string) list \<Rightarrow> state \<Rightarrow> (string \<times> ctx) option outcome" where
  "scan w [] s = (Normal None, s)"
| "scan w ((c, label) # rest) s =
     (case query w (now s) c of
        Inl e \<Rightarrow> (Throw e, s)
      | Inr None \<Rightarrow> scan w rest s
      | Inr (Some button) \<Rightarrow>
          (let s1 = emit (ConsoleLog (Detected label)) s in
           case scrollIntoView w (now s1) button of
             Some e \<Rightarrow> (Throw e, s1)
           | None \<Rightarrow>
              (case boundingBox w (now s1) button of
                 Inl e \<Rightarrow> (Throw e, s1)
               | Inr box \<Rightarrow>
                  (case isIntersectingViewport w (now s1) button of
                     Inl e \<Rightarrow> (Throw e, s1)
                   | Inr inViewport \<Rightarrow>
                       if box = None \<and> \<not> inViewport then scan w rest s1
                       else
                         (let s2 = sleep PreClick 250 s1;
                              s3 = emit (Click c button) s2
                          in case click w (now s3) button of
                               Some e \<Rightarrow> (Throw e, s3)
                             | None \<Rightarrow> (Normal (Some (label, c)), s3))))))"

text \<open>The \<open>while\<close> loop of \<open>findAndClickWakeButton\<close>.\<close>

function poll :: "world \<Rightarrow> time \<Rightarrow> state \<Rightarrow> (string \<times> ctx) option outcome" where
  "poll w pollDeadline s =
     (if now s < pollDeadline then
        (case scan w (contexts w (now s)) s of
           (Normal None, s1) \<Rightarrow> poll w pollDeadline (sleep PollInterval WAKE_BUTTON_POLL_INTERVAL_MS s1)
         | (Normal (Some clicked), s1) \<Rightarrow> (Normal (Some clicked), s1)
         | (Throw e, s1) \<Rightarrow> (Throw e, s1)
         | (ProcessExit c, s1) \<Rightarrow> (ProcessExit c, s1))
      else (Normal None, s))"
  by pat_completeness auto
termination
proof (relation "measure (\<lambda>(w, pollDeadline, s). pollDeadline - now s)")
  show "wf (measure (\<lambda>(w, pollDeadline, s). pollDeadline - now s))" by simp
next
  fix w :: world and pollDeadline :: time and s :: state and x1 x2 x2a
  assume lt: "now s < pollDeadline"
    and sc: "(x1, x2) = scan w (contexts w (now s)) s"
  have mono: "scan w cs u = (r, u') \<Longrightarrow> now u \<le> now u'" for cs u r u'
  proof (induction cs arbitrary: u)
    case Nil
    then show ?case by simp
  next
    case (Cons a cs)
    obtain c label where a: "a = (c, label)" by (cases a)
    from Cons.prems Cons.IH show ?case
      unfolding a
      by (auto simp: emit_def sleep_def Let_def
          split: sum.splits option.splits if_splits dest!: Cons.IH)
  qed
  from sc have "now s \<le> now x2" using mono [of "contexts w (now s)" s x1 x2] by simp
  then show "((w, pollDeadline, sleep PollInterval WAKE_BUTTON_POLL_INTERVAL_MS x2), w, pollDeadline, s)
      \<in> measure (\<lambda>(w, pollDeadline, s). pollDeadline - now s)"
    using lt by (simp add: sleep_def WAKE_BUTTON_POLL_INTERVAL_MS_def)
qed

definition findAndClickWakeButton :: "world \<Rightarrow> state \<Rightarrow> (string \<times> ctx) option outcome" where
  "findAndClickWakeButton w s = poll w (now s + WAKE_BUTTON_POLL_TIMEOUT_MS) s"

subsection \<open>Waiting for readiness\<close>

text \<open>\<open>promise.catch(() => null)\<close>: a rejection becomes a fulfilment, at the same moment.\<close>

fun catch_null :: "settled \<Rightarrow> settled" where
  "catch_null (Fulfilled d) = Fulfilled d"
| "catch_null (Rejected d e) = Fulfilled d"

fun elapsed :: "settled \<Rightarrow> nat" where
  "elapsed (Fulfilled d) = d"
| "elapsed (Rejected d e) = d"

text \<open>\<open>Promise.race\<close> of two promises: it settles as the one that settles first does.\<close>

definition race :: "settled \<Rightarrow> settled \<Rightarrow> settled" where
  "race p q = (if elapsed p \<le> elapsed q then p else q)"

text \<open>\<open>await\<close> of such a promise: the clock moves on, a rejection is thrown.\<close>

fun await_settled :: "settled \<Rightarrow> state \<Rightarrow> unit outcome" where
  "await_settled (Fulfilled d) s = (Normal (), s\<lparr>now := now s + d\<rparr>)"
| "await_settled (Rejected d e) s = (Throw e, s\<lparr>now := now s + d\<rparr>)"

text \<open>
  The \<open>try\<close> block around the race and the grace sleep, with its \<open>catch (readyError)\<close>.
  The context is \<open>lastClickedContext\<close>, assigned just before.
\<close>

definition awaitReady :: "world \<Rightarrow> ctx \<Rightarrow> state \<Rightarrow> unit outcome" where
  "awaitReady w c s =
     (case await_settled
             (race (catch_null (waitForFunction w (now s) c))
                   (catch_null (waitForNavigation w (now s)))) s of
        (Normal u, s1) \<Rightarrow> (Normal (), sleep ReadyGrace 2000 s1)
      | (Throw readyError, s1) \<Rightarrow> fail w reason_not_ready (Some readyError) s1
      | (ProcessExit n, s1) \<Rightarrow> (ProcessExit n, s1))"

subsection \<open>The check after the click\<close>

definition context_destroyed :: "js_error \<Rightarrow> bool" where
  "context_destroyed err \<longleftrightarrow>
     str_includes (err_message err) ''Execution context was destroyed''
     \<or> str_includes (err_message err) ''Cannot find context''"

text \<open>\<open>lastClickedContext.$(selector).catch(...)\<close>, awaited.\<close>

definition buttonStillThere :: "world \<Rightarrow> ctx \<Rightarrow> state \<Rightarrow> handle option outcome" where
  "buttonStillThere w c s =
     (let s1 = emit (Requery c (query w (now s) c)) s in
      case query w (now s) c of
        Inr found \<Rightarrow> (Normal found, s1)
      | Inl err \<Rightarrow> if context_destroyed err then (Normal None, s1) else (Throw err, s1))"

subsection \<open>The attempt loop\<close>

text \<open>How one pass through the body of the \<open>for\<close> loop leaves it.\<close>

datatype loop_ctl = Continue | Break | Return

text \<open>
  The end of the loop body, from the re-query of the clicked context on: \<open>break\<close> when
  the button is gone, the backoff sleep when attempts remain, \<open>fail\<close> otherwise.
\<close>

definition check_after_click :: "world \<Rightarrow> nat \<Rightarrow> ctx \<Rightarrow> state \<Rightarrow> loop_ctl outcome" where
  "check_after_click w attempt c s4 =
     bind (buttonStillThere w c s4) (\<lambda>found s5.
       case found of
         None \<Rightarrow> (Normal Break, emit (ConsoleLog Disappeared) s5)
       | Some h \<Rightarrow>
           if attempt < WAKE_MAX_ATTEMPTS then
             (let backoffMs = WAKE_RETRY_BACKOFF_BASE_MS * 2 ^ (attempt - 1) in
              (Normal Continue,
               sleep Backoff backoffMs
                 (emit (ConsoleLog (StillPresentRetrying attempt backoffMs)) s5)))
           else fail w reason_still_present None s5)"

text \<open>The body of the \<open>for\<close> loop.\<close>

definition attempt_body :: "world \<Rightarrow> time \<Rightarrow> nat \<Rightarrow> state \<Rightarrow> loop_ctl outcome" where
  "attempt_body w startedAt attempt s =
     bind (findAndClickWakeButton w s) (\<lambda>clicked s1.
       case clicked of
         None \<Rightarrow>
           (Normal Return,
            emit (ConsoleLog (SucceededAlreadyAwake (now s1 - startedAt)))
              (emit (ConsoleLog (NotFoundAlreadyAwake attempt WAKE_MAX_ATTEMPTS)) s1))
       | Some (label, c) \<Rightarrow>
           (let s2 = s1\<lparr>lastClickedLabel := Some label, lastClickedContext := Some c\<rparr>;
                s3 = emit (ConsoleLog (ClickedWaiting label attempt WAKE_MAX_ATTEMPTS)) s2
            in bind (awaitReady w c s3) (\<lambda>u s4. check_after_click w attempt c s4)))"

text \<open>
  The \<open>for\<close> loop. \<open>Continue\<close> as its result says that the loop condition became false.
\<close>

function attempts :: "world \<Rightarrow> time \<Rightarrow> nat \<Rightarrow> state \<Rightarrow> loop_ctl outcome" where
  "attempts w startedAt attempt s =
     (if attempt \<le> WAKE_MAX_ATTEMPTS then
        (case attempt_body w startedAt attempt s of
           (Normal Continue, s1) \<Rightarrow> attempts w startedAt (attempt + 1) s1
         | (Normal Break, s1) \<Rightarrow> (Normal Break, s1)
         | (Normal Return, s1) \<Rightarrow> (Normal Return, s1)
         | (Throw e, s1) \<Rightarrow> (Throw e, s1)
         | (ProcessExit n, s1) \<Rightarrow> (ProcessExit n, s1))
      else (Normal Continue, s))"
  by pat_completeness auto
termination
  by (relation "measure (\<lambda>(w, startedAt, attempt, s). WAKE_MAX_ATTEMPTS + 1 - attempt)") auto

subsection \<open>The script\<close>

text \<open>
  The first part of the \<open>try\<close> block: launching the browser, opening the page,
  navigating, checking the response, and the grace period.
\<close>

definition open_page :: "world \<Rightarrow> state \<Rightarrow> unit outcome" where
  "open_page w s =
     bind (await_unit (launch w) s) (\<lambda>u s1.
     bind (await_unit (newPage w) (emit Launch (s1\<lparr>browser := True\<rparr>))) (\<lambda>u s2.
     bind (await_unit (setUserAgent w) s2) (\<lambda>u s3.
     bind (await_unit (setViewport w) s3) (\<lambda>u s4.
       case goto w of
         Inl e \<Rightarrow> (Throw e, s4)
       | Inr None \<Rightarrow> (Throw (JsError ''Error'' msg_no_response), s4)
       | Inr (Some response) \<Rightarrow>
           (let s5 = emit (ConsoleLog (InitialResponse (status response) (statusText response))) s4
            in if status response \<ge> 400 then
                 (Throw (JsError ''Error''
                    (''Unexpected response status: '' @ show_nat (status response))), s5)
               else
                 (let s6 = emit (ConsoleLog (WaitingToSettle PAGE_LOAD_GRACE_PERIOD_MS)) s5
                  in (Normal (), sleep Settle PAGE_LOAD_GRACE_PERIOD_MS s6)))))))"

text \<open>The \<open>try\<close> block: the above, the attempt loop, and the final success message.\<close>

definition try_block :: "world \<Rightarrow> time \<Rightarrow> state \<Rightarrow> unit outcome" where
  "try_block w startedAt s =
     bind (open_page w s) (\<lambda>u s7.
     bind (attempts w startedAt 1 s7) (\<lambda>exit s8.
       case exit of
         Return \<Rightarrow> (Normal (), s8)
       | _ \<Rightarrow>
           (Normal (),
            emit (ConsoleLog (Succeeded (now s8 - startedAt)
                    (if truthy (lastClickedLabel s8) then lastClickedLabel s8 else None))) s8)))"

text \<open>\<open>catch (error)\<close> of the outer \<open>try\<close>.\<close>

definition catch_block :: "world \<Rightarrow> unit outcome \<Rightarrow> unit outcome" where
  "catch_block w r =
     (case r of
        (Throw error, s) \<Rightarrow> fail w reason_failed (Some error) s
      | (Normal u, s) \<Rightarrow> (Normal u, s)
      | (ProcessExit n, s) \<Rightarrow> (ProcessExit n, s))"

text \<open>
  \<open>finally\<close>: it runs when the \<open>try\<close> and \<open>catch\<close> blocks have completed, which a
  process that has exited never does.
\<close>

definition finally_block :: "world \<Rightarrow> unit outcome \<Rightarrow> unit outcome" where
  "finally_block w r =
     (case r of
        (ProcessExit n, s) \<Rightarrow> (ProcessExit n, s)
      | (c, s) \<Rightarrow>
          (if browser s then
             (let s1 = emit Close s in
              case close w of
                None \<Rightarrow> (c, s1)
              | Some closeError \<Rightarrow>
                  (c, emit (ConsoleErrorObj closeError)
                        (emit (ConsoleError ''Failed to close browser'') s1)))
           else (c, s)))"

definition initial :: "world \<Rightarrow> state" where
  "initial w = \<lparr>now = t0 w, trace = [], browser = False,
                lastClickedLabel = None, lastClickedContext = None\<rparr>"

text \<open>The script's asynchronous main function.\<close>

definition main :: "world \<Rightarrow> unit outcome" where
  "main w =
     bind (if \<not> truthy (STREAMLIT_URL w) then fail w reason_url_required None (initial w)
           else (Normal (), initial w)) (\<lambda>u s.
       (let s1 = emit (ConsoleLog (Starting (or_else (STREAMLIT_URL w) []))) s;
            startedAt = now s1
        in finally_block w (catch_block w (try_block w startedAt s1))))"

section \<open>The one-shot script (.github/scripts/keepalive.js)\<close>

definition KEEPALIVE_PAGE_LOAD_GRACE_PERIOD_MS :: nat where
  "KEEPALIVE_PAGE_LOAD_GRACE_PERIOD_MS = 8000"

definition checkForWakeButton :: "world \<Rightarrow> ctx \<Rightarrow> state \<Rightarrow> bool outcome" where
  "checkForWakeButton w c s =
     (case query w (now s) c of
        Inl e \<Rightarrow> (Throw e, s)
      | Inr None \<Rightarrow> (Normal False, s)
      | Inr (Some button) \<Rightarrow>
          (let s1 = emit (ConsoleLog DetectedPlain) s;
               s2 = emit (Click c button) s1
           in case click w (now s2) button of
                Some e \<Rightarrow> (Throw e, s2)
              | None \<Rightarrow> (Normal True, s2)))"

text \<open>The \<open>for\<close> loop over \<open>page.frames()\<close>, entered when the page had no button.\<close>

fun check_frames :: "world \<Rightarrow> nat list \<Rightarrow> state \<Rightarrow> bool outcome" where
  "check_frames w [] s = (Normal False, s)"
| "check_frames w (f # fs) s =
     bind (checkForWakeButton w (Frame f) s) (\<lambda>clicked s1.
       if clicked then (Normal True, s1) else check_frames w fs s1)"

definition keepalive_try_block :: "world \<Rightarrow> time \<Rightarrow> state \<Rightarrow> unit outcome" where
  "keepalive_try_block w startedAt s =
     bind (await_unit (launch w) s) (\<lambda>u s1.
     bind (await_unit (newPage w) (emit Launch (s1\<lparr>browser := True\<rparr>))) (\<lambda>u s2.
       case goto w of
         Inl e \<Rightarrow> (Throw e, s2)
       | Inr None \<Rightarrow> (Throw (JsError ''Error'' msg_no_response), s2)
       | Inr (Some response) \<Rightarrow>
           (let s3 = emit (ConsoleLog (InitialResponse (status response) (statusText response))) s2
            in if status response \<ge> 400 then
                 (Throw (JsError ''Error''
                    (''Unexpected response status: '' @ show_nat (status response))), s3)
               else
                 (let s4 = sleep Settle KEEPALIVE_PAGE_LOAD_GRACE_PERIOD_MS s3 in
                  bind (checkForWakeButton w Page s4) (\<lambda>clicked s5.
                  bind (if \<not> clicked then check_frames w (frames w (now s5)) s5
                        else (Normal clicked, s5)) (\<lambda>clicked s6.
                    (Normal (),
                     emit (ConsoleLog (SucceededPlain (now s6 - startedAt) clicked)) s6)))))))"

definition keepalive_main :: "world \<Rightarrow> unit outcome" where
  "keepalive_main w =
     bind (if \<not> truthy (STREAMLIT_URL w) then fail w reason_url_required None (initial w)
           else (Normal (), initial w)) (\<lambda>u s.
       (let s1 = emit (ConsoleLog (Starting (or_else (STREAMLIT_URL w) []))) s;
            startedAt = now s1
        in finally_block w (catch_block w (keepalive_try_block w startedAt s1))))"

section \<open>Observations on a trace\<close>

text \<open>The clicks and the backoff sleeps of a trace, in the order in which they happened.\<close>

datatype mark = Clicked | BackedOff nat

fun mark_of :: "event \<Rightarrow> mark list" where
  "mark_of (Click c h) = [Clicked]"
| "mark_of (Sleep Backoff ms) = [BackedOff ms]"
| "mark_of e = []"

definition marks :: "event list \<Rightarrow> mark list" where
  "marks es = concat (map mark_of es)"

text \<open>
  What the re-query after a click found: the button, no button (also when the context
  was destroyed), or another failure.
\<close>

datatype verdict = StillPresent | Gone | Errored

fun requery_verdict :: "js_error + handle option \<Rightarrow> verdict" where
  "requery_verdict (Inr (Some h)) = StillPresent"
| "requery_verdict (Inr None) = Gone"
| "requery_verdict (Inl err) = (if context_destroyed err then Gone else Errored)"

fun verdict_of :: "event \<Rightarrow> verdict list" where
  "verdict_of (Requery c r) = [requery_verdict r]"
| "verdict_of e = []"

definition verdicts :: "event list \<Rightarrow> verdict list" where
  "verdicts es = concat (map verdict_of es)"

text \<open>The labels of the contexts clicked, one per attempt that clicked, as the script logs them.\<close>

fun clicked_label_of :: "event \<Rightarrow> string list" where
  "clicked_label_of (ConsoleLog (ClickedWaiting label attempt n)) = [label]"
| "clicked_label_of e = []"

definition clicked_labels :: "event list \<Rightarrow> string list" where
  "clicked_labels es = concat (map clicked_label_of es)"

text \<open>The labels written by the final success message (at most one per run).\<close>

fun succeeded_label_of :: "event \<Rightarrow> string option list" where
  "succeeded_label_of (ConsoleLog (Succeeded ms label)) = [label]"
| "succeeded_label_of e = []"

definition succeeded_labels :: "event list \<Rightarrow> string option list" where
  "succeeded_labels es = concat (map succeeded_label_of es)"

text \<open>
  The label recorded by the success message of a run, whichever of the two success
  messages it is: the "already awake" message has no label.
\<close>

fun recorded_label_of :: "event \<Rightarrow> string option list" where
  "recorded_label_of (ConsoleLog (Succeeded ms label)) = [label]"
| "recorded_label_of (ConsoleLog (SucceededAlreadyAwake ms)) = [None]"
| "recorded_label_of e = []"

definition recorded_labels :: "event list \<Rightarrow> string option list" where
  "recorded_labels es = concat (map recorded_label_of es)"


text \<open>
  \<open>k\<close> attempts from attempt \<open>a\<close> on, each a click followed by its backoff sleep.
\<close>

definition rounds :: "nat \<Rightarrow> nat \<Rightarrow> mark list" where
  "rounds a k =
     concat (map (\<lambda>attempt. [Clicked, BackedOff (WAKE_RETRY_BACKOFF_BASE_MS * 2 ^ (attempt - 1))])
               [a..<a + k])"

text \<open>The backoff sleeps among the marks.\<close>

fun backoff_of :: "mark \<Rightarrow> nat list" where
  "backoff_of (BackedOff ms) = [ms]"
| "backoff_of Clicked = []"

definition backoffs :: "mark list \<Rightarrow> nat list" where
  "backoffs ms = concat (map backoff_of ms)"

subsection \<open>What the parts of the script do to these observations\<close>

text \<open>A part that neither re-queries, nor logs a click or a success, nor assigns the label.\<close>

definition unchanged :: "state \<Rightarrow> state \<Rightarrow> bool" where
  "unchanged s s' \<longleftrightarrow>
     verdicts (trace s') = verdicts (trace s)
     \<and> clicked_labels (trace s') = clicked_labels (trace s)
     \<and> succeeded_labels (trace s') = succeeded_labels (trace s)
     \<and> lastClickedLabel s' = lastClickedLabel s \<and> browser s' = browser s \<and> now s \<le> now s'"

text \<open>\<open>findAndClickWakeButton\<close>: at most one click, exactly one when it returns a context.\<close>

definition located :: "(string \<times> ctx) option completion \<Rightarrow> state \<Rightarrow> state \<Rightarrow> bool" where
  "located r s s' \<longleftrightarrow>
     unchanged s s'
     \<and> (r = Normal None \<longrightarrow> marks (trace s') = marks (trace s))
     \<and> (\<forall>l c. r = Normal (Some (l, c)) \<longrightarrow>
            marks (trace s') = marks (trace s) @ [Clicked] \<and> l \<noteq> [])
     \<and> (marks (trace s') = marks (trace s) \<or> marks (trace s') = marks (trace s) @ [Clicked])
     \<and> (\<forall>n. r \<noteq> ProcessExit n)"

text \<open>One pass of the loop body logs at most one click, and then assigns its label.\<close>

definition label_step :: "state \<Rightarrow> state \<Rightarrow> bool" where
  "label_step s s' \<longleftrightarrow>
     (clicked_labels (trace s') = clicked_labels (trace s)
        \<and> lastClickedLabel s' = lastClickedLabel s)
     \<or> (\<exists>l. l \<noteq> [] \<and> clicked_labels (trace s') = clicked_labels (trace s) @ [l]
            \<and> lastClickedLabel s' = Some l)"


text \<open>One pass of the loop body, by the way it ends.\<close>

definition body_obs :: "nat \<Rightarrow> loop_ctl completion \<Rightarrow> state \<Rightarrow> state \<Rightarrow> bool" where
  "body_obs a r s s' \<longleftrightarrow>
     succeeded_labels (trace s') = succeeded_labels (trace s) \<and> browser s' = browser s
     \<and> label_step s s'
     \<and> (r = Normal Return \<longrightarrow>
           marks (trace s') = marks (trace s) \<and> verdicts (trace s') = verdicts (trace s))
     \<and> (r = Normal Break \<longrightarrow>
           marks (trace s') = marks (trace s) @ [Clicked]
           \<and> verdicts (trace s') = verdicts (trace s) @ [Gone])
     \<and> (r = Normal Continue \<longrightarrow>
           a < WAKE_MAX_ATTEMPTS
           \<and> marks (trace s') = marks (trace s) @ rounds a 1
           \<and> verdicts (trace s') = verdicts (trace s) @ [StillPresent])
     \<and> (\<forall>e. r = Throw e \<longrightarrow>
           (marks (trace s') = marks (trace s) \<or> marks (trace s') = marks (trace s) @ [Clicked])
           \<and> (verdicts (trace s') = verdicts (trace s)
                \<or> verdicts (trace s') = verdicts (trace s) @ [Errored]))
     \<and> (\<forall>n. r = ProcessExit n \<longrightarrow>
           n = 1 \<and> \<not> a < WAKE_MAX_ATTEMPTS
           \<and> marks (trace s') = marks (trace s) @ [Clicked]
           \<and> verdicts (trace s') = verdicts (trace s) @ [StillPresent]
           \<and> ConsoleError reason_still_present \<in> set (trace s'))"

text \<open>
  The loop from attempt \<open>a\<close> on, by the way it ends, after \<open>k\<close> attempts that found the
  button still present and slept the backoff.
\<close>

definition shape :: "nat \<Rightarrow> nat \<Rightarrow> loop_ctl completion \<Rightarrow> state \<Rightarrow> state \<Rightarrow> bool" where
  "shape a k r s s' \<longleftrightarrow>
     browser s' = browser s \<and> succeeded_labels (trace s') = succeeded_labels (trace s)
     \<and> (r = Normal Continue \<longrightarrow> \<not> a \<le> WAKE_MAX_ATTEMPTS \<and> s' = s)
     \<and> (r = Normal Return \<longrightarrow>
           a + k \<le> WAKE_MAX_ATTEMPTS
           \<and> marks (trace s') = marks (trace s) @ rounds a k
           \<and> verdicts (trace s') = verdicts (trace s) @ replicate k StillPresent)
     \<and> (r = Normal Break \<longrightarrow>
           a + k \<le> WAKE_MAX_ATTEMPTS
           \<and> marks (trace s') = marks (trace s) @ rounds a k @ [Clicked]
           \<and> verdicts (trace s') = verdicts (trace s) @ replicate k StillPresent @ [Gone])
     \<and> (\<forall>e. r = Throw e \<longrightarrow>
           a + k \<le> WAKE_MAX_ATTEMPTS
           \<and> (marks (trace s') = marks (trace s) @ rounds a k
                \<or> marks (trace s') = marks (trace s) @ rounds a k @ [Clicked])
           \<and> (verdicts (trace s') = verdicts (trace s) @ replicate k StillPresent
                \<or> verdicts (trace s') = verdicts (trace s) @ replicate k StillPresent @ [Errored]))
     \<and> (\<forall>n. r = ProcessExit n \<longrightarrow>
           n = 1 \<and> a + k = WAKE_MAX_ATTEMPTS
           \<and> marks (trace s') = marks (trace s) @ rounds a k @ [Clicked]
           \<and> verdicts (trace s') = verdicts (trace s) @ replicate (Suc k) StillPresent
           \<and> ConsoleError reason_still_present \<in> set (trace s'))"

text \<open>
  The \<open>try\<close> block, by the way it ends: already awake, button gone after a click,
  attempts exhausted, or a thrown error.
\<close>

definition try_shape :: "nat \<Rightarrow> unit completion \<Rightarrow> event list \<Rightarrow> bool" where
  "try_shape k r tr \<longleftrightarrow>
     (r = Normal () \<and> 1 + k \<le> WAKE_MAX_ATTEMPTS
        \<and> marks tr = rounds 1 k \<and> verdicts tr = replicate k StillPresent
        \<and> succeeded_labels tr = [])
   \<or> (r = Normal () \<and> 1 + k \<le> WAKE_MAX_ATTEMPTS
        \<and> marks tr = rounds 1 k @ [Clicked] \<and> verdicts tr = replicate k StillPresent @ [Gone]
        \<and> length (succeeded_labels tr) = 1)
   \<or> (r = ProcessExit 1 \<and> 1 + k = WAKE_MAX_ATTEMPTS
        \<and> marks tr = rounds 1 k @ [Clicked] \<and> verdicts tr = replicate (Suc k) StillPresent
        \<and> succeeded_labels tr = []
        \<and> ConsoleError reason_still_present \<in> set tr)
   \<or> ((\<exists>e. r = Throw e) \<and> 1 + k \<le> WAKE_MAX_ATTEMPTS
        \<and> (marks tr = rounds 1 k \<or> marks tr = rounds 1 k @ [Clicked])
        \<and> (verdicts tr = replicate k StillPresent
             \<or> verdicts tr = replicate k StillPresent @ [Errored])
        \<and> succeeded_labels tr = [])"

text \<open>A whole run, by the way it ends: the same, a thrown error having become a failure.\<close>

definition run_shape :: "nat \<Rightarrow> unit completion \<Rightarrow> event list \<Rightarrow> bool" where
  "run_shape k r tr \<longleftrightarrow>
     (r = Normal () \<and> 1 + k \<le> WAKE_MAX_ATTEMPTS
        \<and> marks tr = rounds 1 k \<and> verdicts tr = replicate k StillPresent
        \<and> succeeded_labels tr = [])
   \<or> (r = Normal () \<and> 1 + k \<le> WAKE_MAX_ATTEMPTS
        \<and> marks tr = rounds 1 k @ [Clicked] \<and> verdicts tr = replicate k StillPresent @ [Gone]
        \<and> length (succeeded_labels tr) = 1)
   \<or> (r = ProcessExit 1 \<and> 1 + k = WAKE_MAX_ATTEMPTS
        \<and> marks tr = rounds 1 k @ [Clicked] \<and> verdicts tr = replicate (Suc k) StillPresent
        \<and> succeeded_labels tr = []
        \<and> ConsoleError reason_still_present \<in> set tr)
   \<or> (r = ProcessExit 1 \<and> 1 + k \<le> WAKE_MAX_ATTEMPTS
        \<and> (marks tr = rounds 1 k \<or> marks tr = rounds 1 k @ [Clicked])
        \<and> (verdicts tr = replicate k StillPresent
             \<or> verdicts tr = replicate k StillPresent @ [Errored])
        \<and> succeeded_labels tr = [])"

text \<open>
  Whether the button of a context can be clicked, as the loop over the contexts judges it:
  it is there, and it has a bounding box or intersects the viewport.
\<close>

definition actionable :: "world \<Rightarrow> time \<Rightarrow> ctx \<Rightarrow> bool" where
  "actionable w t c =
     (case query w t c of
        Inr (Some button) \<Rightarrow>
          \<not> (boundingBox w t button = Inr None \<and> isIntersectingViewport w t button = Inr False)
      | _ \<Rightarrow> False)"

text \<open>
  What the locator is to return at a poll made at time \<open>t\<close>: of the page first and
  then the frames in the order the driver reports them, the first context whose button is
  actionable, with its label.
\<close>

definition first_actionable :: "world \<Rightarrow> time \<Rightarrow> (ctx \<times> string) option" where
  "first_actionable w t =
     find (\<lambda>(c, l). actionable w t c)
       ((Page, ''main page'') # map (\<lambda>f. (Frame f, frame_label w t f)) (frames w t))"

section \<open>Some worlds\<close>

definition timeout_error :: js_error where
  "timeout_error = JsError ''TimeoutError'' ''Waiting failed: 120000ms exceeded''"

text \<open>The application is awake: no context has the button.\<close>

definition w_awake :: world where
  "w_awake = \<lparr>STREAMLIT_URL = Some ''https://app.example'', SUMMARY_PATH = Some ''summary.md'',
     t0 = 0, launch = None, newPage = None, setUserAgent = None, setViewport = None,
     goto = Inr (Some (Response 200 ''OK'')),
     frames = (\<lambda>t. []), frame_url = (\<lambda>t f. []),
     query = (\<lambda>t c. Inr None),
     scrollIntoView = (\<lambda>t h. None),
     boundingBox = (\<lambda>t h. Inr None),
     isIntersectingViewport = (\<lambda>t h. Inr False),
     click = (\<lambda>t h. None),
     waitForFunction = (\<lambda>t c. Rejected 120000 timeout_error),
     waitForNavigation = (\<lambda>t. Rejected 120000 timeout_error),
     close = None, appendFile = None\<rparr>"

text \<open>
  The button stays on the page whatever is clicked, and both waits after a click time out.
\<close>

definition w_stuck :: world where
  "w_stuck = w_awake\<lparr>query := (\<lambda>t c. if c = Page then Inr (Some 7) else Inr None),
      boundingBox := (\<lambda>t h. Inr (Some (Box 0 0 10 10))),
      isIntersectingViewport := (\<lambda>t h. Inr True)\<rparr>"

text \<open>The application answers the navigation with status 500.\<close>

definition w_500 :: world where
  "w_500 = w_awake\<lparr>goto := Inr (Some (Response 500 ''Internal Server Error''))\<rparr>"

text \<open>The page has the button, without a bounding box and outside the viewport.\<close>

definition w_hidden :: world where
  "w_hidden = w_awake\<lparr>query := (\<lambda>t c. if c = Page then Inr (Some 7) else Inr None)\<rparr>"

text \<open>
  The button is on the page until the click makes the page navigate: the navigation
  completes after three seconds, and the context that was clicked is then destroyed.
\<close>

definition destroyed_error :: js_error where
  "destroyed_error =
     JsError ''Error'' ''Execution context was destroyed, most likely because of a navigation.''"

definition w_navigated :: world where
  "w_navigated = w_stuck\<lparr>
      query := (\<lambda>t c. if c = Page then (if t < 8000 then Inr (Some 7) else Inl destroyed_error)
                       else Inr None),
      waitForNavigation := (\<lambda>t. Fulfilled 3000)\<rparr>"

text \<open>
  The button leaves the page 25 seconds after the start, during the third attempt; the
  navigation wait is fulfilled after three seconds.
\<close>

definition w_third :: world where
  "w_third = w_stuck\<lparr>
      query := (\<lambda>t c. if c = Page \<and> t < 25000 then Inr (Some 7) else Inr None),
      waitForNavigation := (\<lambda>t. Fulfilled 3000)\<rparr>"


text \<open>
  Three frames have the button: in the first it has no bounding box and is outside the
  viewport, in the second and the third it has a bounding box. The page has none.
\<close>

definition w_frames :: world where
  "w_frames = w_awake\<lparr>
      frames := (\<lambda>t. [1, 2, 3]),
      frame_url := (\<lambda>t f. if f = 1 then ''https://a.example'' else if f = 2 then [] else ''https://c.example''),
      query := (\<lambda>t c. if c = Page then Inr None else if c = Frame 1 then Inr (Some 4)
                       else if c = Frame 2 then Inr (Some 5) else Inr (Some 6)),
      boundingBox := (\<lambda>t h. if h = 4 then Inr None else Inr (Some (Box 0 0 10 10))),
      isIntersectingViewport := (\<lambda>t h. Inr False)\<rparr>"

text \<open>The same frames, where the buttons appear two seconds after the start.\<close>

definition w_frames_late :: world where
  "w_frames_late = w_frames\<lparr>
      query := (\<lambda>t c. if t < 2000 \<or> c = Page then Inr None else if c = Frame 1 then Inr (Some 4)
                       else if c = Frame 2 then Inr (Some 5) else Inr (Some 6))\<rparr>"


section \<open>Evaluating runs\<close>

declare poll.simps [simp del] attempts.simps [simp del] show_nat.simps [simp del]

lemmas run_defs = main_def initial_def emit_def sleep_def bind_def try_block_def open_page_def
    await_unit_def poll.simps attempts.simps show_nat.simps
    catch_block_def finally_block_def fail_def appendFailureSummary_def Let_def reason_failed_def
    buildFailureSummary_def message_or_err_def attempt_body_def findAndClickWakeButton_def
    awaitReady_def buttonStillThere_def race_def contexts_def frame_label_def check_after_click_def
    WAKE_MAX_ATTEMPTS_def WAKE_BUTTON_POLL_TIMEOUT_MS_def WAKE_BUTTON_POLL_INTERVAL_MS_def
    WAKE_RETRY_BACKOFF_BASE_MS_def PAGE_LOAD_GRACE_PERIOD_MS_def reason_still_present_def
    reason_not_ready_def msg_no_response_def keepalive_main_def keepalive_try_block_def
    checkForWakeButton_def KEEPALIVE_PAGE_LOAD_GRACE_PERIOD_MS_def

lemma marks_simps [simp]:
  "marks [] = []" "marks (e # es) = mark_of e @ marks es" "marks (es @ es') = marks es @ marks es'"
  by (simp_all add: marks_def)

lemma verdicts_simps [simp]:
  "verdicts [] = []" "verdicts (e # es) = verdict_of e @ verdicts es"
  "verdicts (es @ es') = verdicts es @ verdicts es'"
  by (simp_all add: verdicts_def)

lemma clicked_labels_simps [simp]:
  "clicked_labels [] = []" "clicked_labels (e # es) = clicked_label_of e @ clicked_labels es"
  "clicked_labels (es @ es') = clicked_labels es @ clicked_labels es'"
  by (simp_all add: clicked_labels_def)

lemma succeeded_labels_simps [simp]:
  "succeeded_labels [] = []" "succeeded_labels (e # es) = succeeded_label_of e @ succeeded_labels es"
  "succeeded_labels (es @ es') = succeeded_labels es @ succeeded_labels es'"
  by (simp_all add: succeeded_labels_def)

lemma recorded_labels_simps [simp]:
  "recorded_labels [] = []" "recorded_labels (e # es) = recorded_label_of e @ recorded_labels es"
  "recorded_labels (es @ es') = recorded_labels es @ recorded_labels es'"
  by (simp_all add: recorded_labels_def)

lemma rounds_0 [simp]: "rounds a 0 = []"
  by (simp add: rounds_def)

lemma rounds_Suc:
  "rounds a (Suc k) = [Clicked, BackedOff (WAKE_RETRY_BACKOFF_BASE_MS * 2 ^ (a - 1))] @ rounds (Suc a) k"
proof -
  have "[a..<a + Suc k] = a # [Suc a..<Suc a + k]"
    by (simp add: upt_conv_Cons)
  then show ?thesis by (simp add: rounds_def)
qed

section \<open>The parts of the script, seen through the observations\<close>

lemma contexts_label: "(c, l) \<in> set (contexts w t) \<Longrightarrow> l \<noteq> []"
  by (auto simp: contexts_def frame_label_def)

lemma scan_obs:
  "scan w cs s = (r, s') \<Longrightarrow>
     unchanged s s'
     \<and> (r = Normal None \<longrightarrow> marks (trace s') = marks (trace s))
     \<and> (\<forall>l c. r = Normal (Some (l, c)) \<longrightarrow>
            marks (trace s') = marks (trace s) @ [Clicked] \<and> (c, l) \<in> set cs)
     \<and> (marks (trace s') = marks (trace s) \<or> marks (trace s') = marks (trace s) @ [Clicked])
     \<and> (\<forall>n. r \<noteq> ProcessExit n)"
proof (induction cs arbitrary: s)
  case Nil
  then show ?case by (auto simp: unchanged_def)
next
  case (Cons a cs)
  obtain c label where a: "a = (c, label)" by (cases a)
  from Cons.prems show ?case
    unfolding a unchanged_def
    by (auto simp: emit_def sleep_def Let_def
        split: sum.splits option.splits if_splits dest!: Cons.IH [unfolded unchanged_def])
qed

lemma poll_located: "poll w d s = (r, s') \<Longrightarrow> located r s s'"
proof (induction w d s rule: poll.induct)
  case (1 w d s)
  show ?case
  proof (cases "now s < d")
    case False
    with "1.prems" show ?thesis by (auto simp: poll.simps [of w d s] located_def unchanged_def)
  next
    case True
    obtain r1 s1 where sc: "scan w (contexts w (now s)) s = (r1, s1)"
      by (cases "scan w (contexts w (now s)) s")
    note so = scan_obs [OF sc]
    show ?thesis
    proof (cases "r1 = Normal None")
      case True
      with \<open>now s < d\<close> sc "1.prems"
      have p: "poll w d (sleep PollInterval WAKE_BUTTON_POLL_INTERVAL_MS s1) = (r, s')"
        by (simp add: poll.simps [of w d s])
      have "located r (sleep PollInterval WAKE_BUTTON_POLL_INTERVAL_MS s1) s'"
        using "1.IH" [OF \<open>now s < d\<close> sc [symmetric] _ _ p] True by simp
      with so True show ?thesis by (simp add: sleep_def located_def unchanged_def)
    next
      case False
      with \<open>now s < d\<close> sc "1.prems" have "r = r1" "s' = s1"
        by (auto simp: poll.simps [of w d s] split: completion.splits option.splits)
      with so False show ?thesis by (auto simp: located_def dest: contexts_label)
    qed
  qed
qed

text \<open>
  Both promises of the race carry \<open>.catch(() => null)\<close>, so the race is fulfilled when the
  first of them settles, also by a timeout: the \<open>catch (readyError)\<close> block is never
  entered, whatever the driver answers.
\<close>

lemma awaitReady_never_fails:
  "awaitReady w c s =
     (Normal (), sleep ReadyGrace 2000
        (s\<lparr>now := now s + min (elapsed (waitForFunction w (now s) c))
                                (elapsed (waitForNavigation w (now s)))\<rparr>))"
  by (cases "waitForFunction w (now s) c"; cases "waitForNavigation w (now s)")
     (auto simp: awaitReady_def race_def min_def)

lemma fail_obs:
  "fail w reason err s = (r, s') \<Longrightarrow>
     r = ProcessExit 1 \<and> marks (trace s') = marks (trace s) \<and> verdicts (trace s') = verdicts (trace s)
     \<and> succeeded_labels (trace s') = succeeded_labels (trace s)
     \<and> clicked_labels (trace s') = clicked_labels (trace s)
     \<and> ConsoleError reason \<in> set (trace s')"
  by (auto simp: fail_def appendFailureSummary_def emit_def Let_def split: option.splits)

lemma check_after_click_obs:
  "check_after_click w a c s = (r, s') \<Longrightarrow>
     clicked_labels (trace s') = clicked_labels (trace s)
     \<and> succeeded_labels (trace s') = succeeded_labels (trace s)
     \<and> lastClickedLabel s' = lastClickedLabel s \<and> browser s' = browser s
     \<and> marks (trace s') = marks (trace s)
          @ (if r = Normal Continue then [BackedOff (WAKE_RETRY_BACKOFF_BASE_MS * 2 ^ (a - 1))] else [])
     \<and> verdicts (trace s') = verdicts (trace s)
          @ [case r of Normal Break \<Rightarrow> Gone | Throw e \<Rightarrow> Errored | _ \<Rightarrow> StillPresent]
     \<and> r \<noteq> Normal Return
     \<and> (r = Normal Continue \<longrightarrow> a < WAKE_MAX_ATTEMPTS)
     \<and> (\<forall>n. r = ProcessExit n \<longrightarrow>
           n = 1 \<and> \<not> a < WAKE_MAX_ATTEMPTS \<and> ConsoleError reason_still_present \<in> set (trace s'))"
  by (cases "query w (now s) c")
     (auto simp: check_after_click_def buttonStillThere_def bind_def Let_def emit_def sleep_def
        fail_def appendFailureSummary_def split: option.splits if_splits)

lemma attempt_body_obs:
  assumes "attempt_body w st a s = (r, s')"
  shows "body_obs a r s s'"
proof -
  obtain r1 s1 where f: "findAndClickWakeButton w s = (r1, s1)"
    by (cases "findAndClickWakeButton w s")
  then have loc: "located r1 s s1"
    by (simp add: findAndClickWakeButton_def poll_located)
  show ?thesis
  proof (cases r1)
    case (Normal clicked)
    show ?thesis
    proof (cases clicked)
      case None
      with Normal f assms loc show ?thesis
        by (auto simp: attempt_body_def bind_def emit_def located_def unchanged_def label_step_def
            body_obs_def)
    next
      case (Some lc)
      obtain label c where lc: "lc = (label, c)" by (cases lc)
      let ?s3 = "emit (ConsoleLog (ClickedWaiting label a WAKE_MAX_ATTEMPTS))
                   (s1\<lparr>lastClickedLabel := Some label, lastClickedContext := Some c\<rparr>)"
      let ?s4 = "sleep ReadyGrace 2000
                   (?s3\<lparr>now := now ?s3 + min (elapsed (waitForFunction w (now ?s3) c))
                                             (elapsed (waitForNavigation w (now ?s3)))\<rparr>)"
      from Normal Some lc f assms have c: "check_after_click w a c ?s4 = (r, s')"
        by (simp add: attempt_body_def bind_def Let_def awaitReady_never_fails)
      note co = check_after_click_obs [OF c]
      from loc Normal Some lc have l1: "unchanged s s1" "marks (trace s1) = marks (trace s) @ [Clicked]"
          "label \<noteq> []"
        by (auto simp: located_def)
      have t4: "trace ?s4 = trace s1 @ [ConsoleLog (ClickedWaiting label a WAKE_MAX_ATTEMPTS),
                                        Sleep ReadyGrace 2000]"
        "lastClickedLabel ?s4 = Some label" "browser ?s4 = browser s1"
        by (simp_all add: emit_def sleep_def)
      from co l1 t4 show ?thesis
        by (cases r)
           (auto simp: unchanged_def label_step_def rounds_def body_obs_def split: loop_ctl.splits)
    qed
  next
    case (Throw e)
    with f assms loc show ?thesis
      by (auto simp: attempt_body_def bind_def located_def unchanged_def label_step_def body_obs_def)
  next
    case (ProcessExit n)
    with loc show ?thesis by (simp add: located_def)
  qed
qed

lemma shape_0:
  assumes "a \<le> WAKE_MAX_ATTEMPTS" "rb \<noteq> Normal Continue" "body_obs a rb s s'"
  shows "shape a 0 rb s s'"
proof (cases rb)
  case (Normal ctl)
  with assms show ?thesis by (cases ctl) (simp_all add: shape_def body_obs_def)
next
  case (Throw e)
  with assms show ?thesis by (simp add: shape_def body_obs_def)
next
  case (ProcessExit n)
  with assms show ?thesis by (simp add: shape_def body_obs_def)
qed

lemma shape_Suc:
  assumes k: "shape (Suc a) k r s1 s'" and b: "body_obs a (Normal Continue) s s1"
  shows "shape a (Suc k) r s s'"
proof -
  from b have b1: "a < WAKE_MAX_ATTEMPTS" "marks (trace s1) = marks (trace s) @ rounds a 1"
    "verdicts (trace s1) = verdicts (trace s) @ [StillPresent]"
    "succeeded_labels (trace s1) = succeeded_labels (trace s)" "browser s1 = browser s"
    by (simp_all add: body_obs_def)
  have r1: "rounds a (Suc k) = rounds a 1 @ rounds (Suc a) k"
    by (simp add: rounds_Suc [of a k] rounds_Suc [of a 0])
  have v1: "replicate (Suc k) StillPresent = [StillPresent] @ replicate k StillPresent"
    by simp
  have v2: "replicate (Suc (Suc k)) StillPresent = [StillPresent] @ replicate (Suc k) StillPresent"
    by simp
  show ?thesis
  proof (cases r)
    case (Normal ctl)
    with k b1 show ?thesis
      unfolding shape_def r1 v1 by (cases ctl) simp_all
  next
    case (Throw e)
    with k b1 show ?thesis
      unfolding shape_def r1 v1 by simp
  next
    case (ProcessExit n)
    with k b1 show ?thesis
      unfolding shape_def r1 v2 by simp
  qed
qed

lemma attempts_shape: "attempts w st a s = (r, s') \<Longrightarrow> \<exists>k. shape a k r s s'"
proof (induction w st a s rule: attempts.induct)
  case (1 w st a s)
  show ?case
  proof (cases "a \<le> WAKE_MAX_ATTEMPTS")
    case False
    with "1.prems" have "r = Normal Continue" "s' = s" by (auto simp: attempts.simps [of w st a s])
    with False show ?thesis by (intro exI [of _ 0]) (simp add: shape_def)
  next
    case True
    obtain rb s1 where b: "attempt_body w st a s = (rb, s1)"
      by (cases "attempt_body w st a s")
    note bo = attempt_body_obs [OF b]
    show ?thesis
    proof (cases "rb = Normal Continue")
      case False
      with True b "1.prems" have "r = rb" "s' = s1"
        by (auto simp: attempts.simps [of w st a s] split: completion.splits loop_ctl.splits)
      with shape_0 [OF True False bo] show ?thesis by blast
    next
      case rbc: True
      with True b "1.prems" have rest: "attempts w st (a + 1) s1 = (r, s')"
        by (simp add: attempts.simps [of w st a s])
      from "1.IH" [OF True b [symmetric] _ _ rest] rbc
      obtain k where k: "shape (Suc a) k r s1 s'" by auto
      from bo rbc have "body_obs a (Normal Continue) s s1" by simp
      from shape_Suc [OF k this] show ?thesis by blast
    qed
  qed
qed



lemma open_page_obs:
  "open_page w s = (r, s') \<Longrightarrow>
     marks (trace s') = marks (trace s) \<and> verdicts (trace s') = verdicts (trace s)
     \<and> succeeded_labels (trace s') = succeeded_labels (trace s)
     \<and> clicked_labels (trace s') = clicked_labels (trace s)
     \<and> lastClickedLabel s' = lastClickedLabel s
     \<and> (\<forall>n. r \<noteq> ProcessExit n)"
  by (auto simp: open_page_def bind_def await_unit_def emit_def sleep_def Let_def
      split: option.splits sum.splits if_splits)

lemma try_block_shape:
  assumes t: "try_block w st s = (r, s')"
    and m0: "marks (trace s) = []" "verdicts (trace s) = []" "succeeded_labels (trace s) = []"
  shows "\<exists>k. try_shape k r (trace s')"
proof -
  obtain ro s7 where o: "open_page w s = (ro, s7)" by (cases "open_page w s")
  note oo = open_page_obs [OF o]
  show ?thesis
  proof (cases ro)
    case (Throw e)
    with o t have "r = Throw e" "s' = s7" by (auto simp: try_block_def bind_def)
    with oo m0 show ?thesis
      by (intro exI [of _ 0]) (simp add: try_shape_def WAKE_MAX_ATTEMPTS_def)
  next
    case (ProcessExit n)
    with oo show ?thesis by simp
  next
    case (Normal u)
    obtain rl s8 where l: "attempts w st 1 s7 = (rl, s8)" by (cases "attempts w st 1 s7")
    from attempts_shape [OF l] obtain k where k: "shape 1 k rl s7 s8" by blast
    from oo m0 have m7: "marks (trace s7) = []" "verdicts (trace s7) = []"
      "succeeded_labels (trace s7) = []" by simp_all
    show ?thesis
    proof (cases rl)
      case (Throw e)
      with Normal o l t have "r = Throw e" "s' = s8" by (auto simp: try_block_def bind_def)
      with k m7 Throw show ?thesis
        by (intro exI [of _ k]) (simp add: try_shape_def shape_def)
    next
      case (ProcessExit n)
      with Normal o l t have "r = ProcessExit n" "s' = s8" by (auto simp: try_block_def bind_def)
      with k m7 ProcessExit show ?thesis
        by (intro exI [of _ k]) (simp add: try_shape_def shape_def del: replicate_Suc)
    next
      case rn: (Normal ctl)
      show ?thesis
      proof (cases ctl)
        case Continue
        with rn k show ?thesis by (simp add: shape_def WAKE_MAX_ATTEMPTS_def)
      next
        case Return
        with rn Normal o l t have "r = Normal ()" "s' = s8" by (auto simp: try_block_def bind_def)
        with k m7 rn Return show ?thesis
          by (intro exI [of _ k]) (simp add: try_shape_def shape_def)
      next
        case Break
        with rn Normal o l t have "r = Normal ()" "marks (trace s') = marks (trace s8)"
          "verdicts (trace s') = verdicts (trace s8)"
          "length (succeeded_labels (trace s')) = Suc (length (succeeded_labels (trace s8)))"
          by (auto simp: try_block_def bind_def emit_def)
        with k m7 rn Break show ?thesis
          by (intro exI [of _ k]) (simp add: try_shape_def shape_def)
      qed
    qed
  qed
qed

lemma catch_finally_obs:
  assumes "finally_block w (catch_block w (r, s)) = (r', s')"
  shows "marks (trace s') = marks (trace s) \<and> verdicts (trace s') = verdicts (trace s)
     \<and> succeeded_labels (trace s') = succeeded_labels (trace s)
     \<and> clicked_labels (trace s') = clicked_labels (trace s)
     \<and> set (trace s) \<subseteq> set (trace s')
     \<and> r' = (case r of Normal u \<Rightarrow> Normal () | Throw e \<Rightarrow> ProcessExit 1 | ProcessExit n \<Rightarrow> ProcessExit n)"
  using assms
  by (cases r)
     (auto simp: finally_block_def catch_block_def fail_def appendFailureSummary_def emit_def Let_def
        split: option.splits if_splits)

lemma main_unfold:
  assumes "truthy (STREAMLIT_URL w)"
  shows "main w =
     finally_block w (catch_block w
       (try_block w (t0 w) (emit (ConsoleLog (Starting (or_else (STREAMLIT_URL w) []))) (initial w))))"
  using assms by (simp add: main_def bind_def Let_def emit_def initial_def)

lemma main_no_url:
  assumes "\<not> truthy (STREAMLIT_URL w)"
  shows "fst (main w) = ProcessExit 1" "marks (trace (snd (main w))) = []"
    "verdicts (trace (snd (main w))) = []" "succeeded_labels (trace (snd (main w))) = []"
  using assms
  by (simp_all add: main_def bind_def fail_def appendFailureSummary_def emit_def Let_def
        initial_def split: option.splits)

lemma main_shape: "\<exists>k. run_shape k (fst (main w)) (trace (snd (main w)))"
proof (cases "truthy (STREAMLIT_URL w)")
  case False
  from main_no_url [OF this] show ?thesis
    by (intro exI [of _ 0]) (simp add: run_shape_def WAKE_MAX_ATTEMPTS_def)
next
  case True
  let ?s1 = "emit (ConsoleLog (Starting (or_else (STREAMLIT_URL w) []))) (initial w)"
  obtain r s where t: "try_block w (t0 w) ?s1 = (r, s)" by (cases "try_block w (t0 w) ?s1")
  have "marks (trace ?s1) = []" "verdicts (trace ?s1) = []" "succeeded_labels (trace ?s1) = []"
    by (simp_all add: emit_def initial_def)
  from try_block_shape [OF t this] obtain k where k: "try_shape k r (trace s)" by blast
  obtain r' s' where f: "finally_block w (catch_block w (r, s)) = (r', s')"
    by (cases "finally_block w (catch_block w (r, s))")
  from True t f have m: "main w = (r', s')" by (simp add: main_unfold)
  note cf = catch_finally_obs [OF f]
  from cf have eq: "marks (trace s') = marks (trace s)" "verdicts (trace s') = verdicts (trace s)"
    "succeeded_labels (trace s') = succeeded_labels (trace s)"
    "set (trace s) \<subseteq> set (trace s')" by simp_all
  from k consider
      (normal) "r = Normal ()"
    | (exhausted) "r = ProcessExit 1" "ConsoleError reason_still_present \<in> set (trace s)"
    | (thrown) e where "r = Throw e"
    unfolding try_shape_def by blast
  then have "run_shape k r' (trace s')"
  proof cases
    case normal
    with cf have "r' = Normal ()" by simp
    with k normal show ?thesis by (simp add: try_shape_def run_shape_def eq)
  next
    case exhausted
    with cf eq have "r' = ProcessExit 1" "ConsoleError reason_still_present \<in> set (trace s')"
      by auto
    with k exhausted show ?thesis
      by (simp add: try_shape_def run_shape_def eq del: replicate_Suc)
  next
    case thrown
    with cf have "r' = ProcessExit 1" by simp
    with k thrown show ?thesis by (simp add: try_shape_def run_shape_def eq)
  qed
  with m show ?thesis by auto
qed

lemma backoffs_simps [simp]:
  "backoffs [] = []" "backoffs (m # ms) = backoff_of m @ backoffs ms"
  "backoffs (ms @ ms') = backoffs ms @ backoffs ms'"
  by (simp_all add: backoffs_def)

lemma replicate_snoc_neq: "y \<noteq> x \<Longrightarrow> replicate k x @ [y] \<noteq> replicate n x"
proof
  assume "y \<noteq> x" and eq: "replicate k x @ [y] = replicate n x"
  have "y \<in> set (replicate k x @ [y])" by simp
  with eq have "y \<in> set (replicate n x)" by simp
  with \<open>y \<noteq> x\<close> show False by simp
qed

lemma rounds_1_2: "rounds (Suc 0) 2 = [Clicked, BackedOff 2000, Clicked, BackedOff 4000]"
proof -
  have "rounds (Suc 0) 2 = rounds (Suc 0) (Suc (Suc 0))" by (simp add: numeral_2_eq_2)
  then show ?thesis by (simp add: rounds_Suc WAKE_RETRY_BACKOFF_BASE_MS_def)
qed

lemma attempts_before_last: "[Suc 0..<WAKE_MAX_ATTEMPTS] = [Suc 0, 2]"
proof -
  have "[Suc 0..<Suc (Suc (Suc 0))] = [Suc 0, Suc (Suc 0)]" by simp
  then show ?thesis by (simp add: WAKE_MAX_ATTEMPTS_def numeral_3_eq_3 numeral_2_eq_2)
qed

lemma rounds_upt:
  "concat (map (\<lambda>attempt. [Clicked, BackedOff (WAKE_RETRY_BACKOFF_BASE_MS * 2 ^ (attempt - 1))])
             [1..<WAKE_MAX_ATTEMPTS]) @ [Clicked]
     = [Clicked, BackedOff 2000, Clicked, BackedOff 4000, Clicked]"
  by (simp add: attempts_before_last WAKE_RETRY_BACKOFF_BASE_MS_def)




lemma scan_nothing:
  "\<forall>c \<in> fst ` set cs. query w (now s) c = Inr None \<Longrightarrow> scan w cs s = (Normal None, s)"
  by (induction cs) auto

lemma poll_nothing:
  "(\<And>t. now s \<le> t \<Longrightarrow> t < d \<Longrightarrow> \<forall>c \<in> fst ` set (contexts w t). query w t c = Inr None)
     \<Longrightarrow> fst (poll w d s) = Normal None"
proof (induction w d s rule: poll.induct)
  case (1 w d s)
  show ?case
  proof (cases "now s < d")
    case False
    then show ?thesis by (simp add: poll.simps [of w d s])
  next
    case True
    with "1.prems" [of "now s"] have sc: "scan w (contexts w (now s)) s = (Normal None, s)"
      by (simp add: scan_nothing)
    have "fst (poll w d (sleep PollInterval WAKE_BUTTON_POLL_INTERVAL_MS s)) = Normal None"
    proof (rule "1.IH" [OF True sc [symmetric] refl refl])
      fix t
      assume "now (sleep PollInterval WAKE_BUTTON_POLL_INTERVAL_MS s) \<le> t" "t < d"
      then show "\<forall>c \<in> fst ` set (contexts w t). query w t c = Inr None"
        using "1.prems" [of t] by (simp add: sleep_def)
    qed
    with True sc show ?thesis by (simp add: poll.simps [of w d s])
  qed
qed

lemma scan_clicks_only_actionable:
  "scan w cs s = (r, s') \<Longrightarrow> Click c h \<in> set (trace s') \<Longrightarrow>
     Click c h \<in> set (trace s) \<or> (query w (now s) c = Inr (Some h) \<and> actionable w (now s) c)"
proof (induction cs arbitrary: s)
  case Nil
  then show ?case by simp
next
  case (Cons a cs)
  obtain c' label where a: "a = (c', label)" by (cases a)
  from Cons.prems show ?case
    unfolding a
    by (auto simp: emit_def sleep_def Let_def actionable_def
        split: sum.splits option.splits if_splits dest!: Cons.IH)
qed

lemma starts_with_append: "starts_with (p @ b) p"
  by (induction p) auto

lemma str_includes_prefix: "str_includes (p @ b) p"
proof (cases "p @ b")
  case Nil
  then show ?thesis by simp
next
  case (Cons x xs)
  have "starts_with (p @ b) p" by (rule starts_with_append)
  with Cons show ?thesis by simp
qed

lemma str_includes_mid: "str_includes (a @ p @ b) p"
  by (induction a) (auto simp: str_includes_prefix)

lemma report_includes:
  "str_includes (buildFailureSummary [''URL: '' @ url, ''Reason: '' @ reason, ''Error: '' @ msg]) url"
  "str_includes (buildFailureSummary [''URL: '' @ url, ''Reason: '' @ reason, ''Error: '' @ msg]) reason"
  "str_includes (buildFailureSummary [''URL: '' @ url, ''Reason: '' @ reason, ''Error: '' @ msg]) msg"
proof -
  let ?r = "buildFailureSummary [''URL: '' @ url, ''Reason: '' @ reason, ''Error: '' @ msg]"
  have "?r = (''### Streamlit keepalive failed'' @ [CHR 0x0A, CHR 0x0A] @ ''- URL: '') @ url
              @ ([CHR 0x0A] @ ''- Reason: '' @ reason @ [CHR 0x0A] @ ''- Error: '' @ msg @ [CHR 0x0A])"
    by (simp add: buildFailureSummary_def)
  then show "str_includes ?r url" by (simp only: str_includes_mid)
  have "?r = (''### Streamlit keepalive failed'' @ [CHR 0x0A, CHR 0x0A] @ ''- URL: '' @ url
              @ [CHR 0x0A] @ ''- Reason: '') @ reason @ ([CHR 0x0A] @ ''- Error: '' @ msg @ [CHR 0x0A])"
    by (simp add: buildFailureSummary_def)
  then show "str_includes ?r reason" by (simp only: str_includes_mid)
  have "?r = (''### Streamlit keepalive failed'' @ [CHR 0x0A, CHR 0x0A] @ ''- URL: '' @ url
              @ [CHR 0x0A] @ ''- Reason: '' @ reason @ [CHR 0x0A] @ ''- Error: '') @ msg @ [CHR 0x0A]"
    by (simp add: buildFailureSummary_def)
  then show "str_includes ?r msg" by (simp only: str_includes_mid)
qed

section \<open>The readiness wait never fails the run\<close>

text \<open>
  C1. The claim: when neither readiness signal resolves within the readiness timeout after
  a click, the run fails at once with the readiness-timeout reason and makes no further
  attempt. The script does otherwise. In the world \<open>w_stuck\<close> both waits reject after
  120000 ms at every attempt; the run goes on to re-query the button, sleeps the backoff,
  clicks three times in all and ends with the reason of the exhausted attempts. The
  readiness-timeout reason is never reported.
\<close>

theorem readiness_timeout_does_not_fail:
  "waitForFunction w_stuck 5250 Page = Rejected 120000 timeout_error
   \<and> waitForNavigation w_stuck 5250 = Rejected 120000 timeout_error
   \<and> fst (main w_stuck) = ProcessExit 1
   \<and> marks (trace (snd (main w_stuck)))
       = [Clicked, BackedOff 2000, Clicked, BackedOff 4000, Clicked]
   \<and> ConsoleError reason_still_present \<in> set (trace (snd (main w_stuck)))
   \<and> ConsoleError reason_not_ready \<notin> set (trace (snd (main w_stuck)))"
  by (simp add: run_defs w_stuck_def w_awake_def timeout_error_def)

section \<open>The one-shot script clicks whatever it finds\<close>

text \<open>
  C2. The claim: a control with a null bounding box that does not intersect the viewport is
  never clicked. The one-shot script does not look at either: in the world \<open>w_hidden\<close>
  the button of the page has no bounding box and is outside the viewport, and
  \<open>checkForWakeButton\<close> clicks it. The loop over the contexts of the retrying script
  does check, see \<open>scan_clicks_only_actionable\<close>.
\<close>

theorem one_shot_script_clicks_hidden_button:
  "actionable w_hidden 8000 Page = False
   \<and> keepalive_main w_hidden = (Normal (),
       \<lparr>now = 8000,
        trace =
          [ConsoleLog (Starting ''https://app.example''), Launch,
           ConsoleLog (InitialResponse 200 ''OK''), Sleep Settle 8000,
           ConsoleLog DetectedPlain, Click Page 7,
           ConsoleLog (SucceededPlain 8000 True), Close],
        browser = True, lastClickedLabel = None, lastClickedContext = None\<rparr>)"
  by (simp add: run_defs w_hidden_def w_awake_def actionable_def)

section \<open>A destroyed context counts as a button that is gone\<close>

text \<open>
  C6. When the re-query of the clicked context rejects because the context was destroyed
  (the message says so), the rejection is not thrown on: the re-query yields \<open>null\<close>
  and the loop body ends with \<open>break\<close>, exactly as when the re-query finds no button.
\<close>

theorem destroyed_context_is_gone:
  "(query w (now s) c = Inl err \<and> context_destroyed err) \<or> query w (now s) c = Inr None \<Longrightarrow>
     buttonStillThere w c s = (Normal None, emit (Requery c (query w (now s) c)) s)
     \<and> check_after_click w attempt c s
         = (Normal Break,
            emit (ConsoleLog Disappeared) (emit (Requery c (query w (now s) c)) s))"
  by (auto simp: buttonStillThere_def check_after_click_def bind_def Let_def)

theorem destroyed_context_is_gone_witness:
  "query w_navigated 10250 Page = Inl destroyed_error
   \<and> context_destroyed destroyed_error
   \<and> check_after_click w_navigated 1 Page (initial w_navigated\<lparr>now := 10250\<rparr>)
       = (Normal Break,
          \<lparr>now = 10250,
           trace = [Requery Page (Inl destroyed_error), ConsoleLog Disappeared],
           browser = False, lastClickedLabel = None, lastClickedContext = None\<rparr>)"
  using destroyed_context_is_gone
          [of w_navigated "initial w_navigated\<lparr>now := 10250\<rparr>" Page destroyed_error 1]
  by (simp add: w_navigated_def w_stuck_def w_awake_def destroyed_error_def context_destroyed_def
        initial_def emit_def)

section \<open>A failed run exits before the browser is closed\<close>

text \<open>
  C8. The claim: the browser, once launched, is closed exactly once on every exit path.
  On every failure the script calls \<open>fail\<close>, whose \<open>process.exit(1)\<close> ends the process
  inside the \<open>catch\<close> block: the \<open>finally\<close> block with \<open>browser.close()\<close> is never
  reached. In the world \<open>w_500\<close> the browser is launched and never closed.
\<close>

theorem failed_run_leaves_browser_open:
  "main w_500 = (ProcessExit 1,
     \<lparr>now = 0,
      trace =
        [ConsoleLog (Starting ''https://app.example''), Launch,
         ConsoleLog (InitialResponse 500 ''Internal Server Error''),
         ConsoleError ''Failed to keep Streamlit app awake'',
         ConsoleErrorObj (JsError ''Error'' ''Unexpected response status: 500''),
         AppendFile ''summary.md''
           (''### Streamlit keepalive failed'' @ [CHR 0x0A, CHR 0x0A]
            @ ''- URL: https://app.example'' @ [CHR 0x0A]
            @ ''- Reason: Failed to keep Streamlit app awake'' @ [CHR 0x0A]
            @ ''- Error: Unexpected response status: 500'' @ [CHR 0x0A])],
      browser = True, lastClickedLabel = None, lastClickedContext = None\<rparr>)
   \<and> Launch \<in> set (trace (snd (main w_500)))
   \<and> Close \<notin> set (trace (snd (main w_500)))"
  by (simp add: run_defs w_500_def w_awake_def)

section \<open>Exhausted attempts\<close>

text \<open>
  C5. When each of the \<open>WAKE_MAX_ATTEMPTS\<close> attempts of a run ends with the button
  still present at the re-query after its click, the run fails with the reason of the
  exhausted attempts; it has clicked exactly \<open>WAKE_MAX_ATTEMPTS\<close> times, and between
  two consecutive clicks it has slept the backoff \<open>WAKE_RETRY_BACKOFF_BASE_MS * 2 ^ (attempt - 1)\<close>,
  that is 2000 ms and then 4000 ms: doubling, hence strictly increasing.
\<close>

theorem exhausted_attempts_fail:
  assumes v: "verdicts (trace (snd (main w))) = replicate WAKE_MAX_ATTEMPTS StillPresent"
  shows "fst (main w) = ProcessExit 1
     \<and> ConsoleError reason_still_present \<in> set (trace (snd (main w)))
     \<and> marks (trace (snd (main w)))
         = concat (map (\<lambda>attempt. [Clicked, BackedOff (WAKE_RETRY_BACKOFF_BASE_MS * 2 ^ (attempt - 1))])
                     [1..<WAKE_MAX_ATTEMPTS]) @ [Clicked]
     \<and> length (filter (\<lambda>m. m = Clicked) (marks (trace (snd (main w))))) = WAKE_MAX_ATTEMPTS
     \<and> backoffs (marks (trace (snd (main w)))) = [2000, 4000]
     \<and> sorted_wrt (<) (backoffs (marks (trace (snd (main w)))))"
proof -
  obtain k where k: "run_shape k (fst (main w)) (trace (snd (main w)))"
    using main_shape by blast
  have no_gone: "replicate k StillPresent @ [Gone] \<noteq> replicate WAKE_MAX_ATTEMPTS StillPresent"
    and no_err: "replicate k StillPresent @ [Errored] \<noteq> replicate WAKE_MAX_ATTEMPTS StillPresent"
    by (simp_all add: replicate_snoc_neq)
  have short: "1 + k \<le> WAKE_MAX_ATTEMPTS \<Longrightarrow>
      replicate k StillPresent \<noteq> replicate WAKE_MAX_ATTEMPTS StillPresent"
    by (auto simp: replicate_eq_replicate)
  from k v no_gone no_err short have ex: "fst (main w) = ProcessExit 1" "1 + k = WAKE_MAX_ATTEMPTS"
    "marks (trace (snd (main w))) = rounds 1 k @ [Clicked]"
    "ConsoleError reason_still_present \<in> set (trace (snd (main w)))"
    unfolding run_shape_def by auto
  from ex(2) have k2: "k = 2" by (simp add: WAKE_MAX_ATTEMPTS_def)
  from ex(3) k2
  have m: "marks (trace (snd (main w))) = [Clicked, BackedOff 2000, Clicked, BackedOff 4000, Clicked]"
    by (simp add: rounds_1_2)
  have "length (filter (\<lambda>m. m = Clicked) (marks (trace (snd (main w))))) = WAKE_MAX_ATTEMPTS"
    "backoffs (marks (trace (snd (main w)))) = [2000, 4000]"
    "sorted_wrt (<) (backoffs (marks (trace (snd (main w)))))"
    by (simp_all add: m WAKE_MAX_ATTEMPTS_def)
  with ex(1,4) m show ?thesis by (simp only: rounds_upt simp_thms)
qed

theorem exhausted_attempts_fail_witness:
  "verdicts (trace (snd (main w_stuck))) = replicate WAKE_MAX_ATTEMPTS StillPresent
   \<and> fst (main w_stuck) = ProcessExit 1
   \<and> ConsoleError reason_still_present \<in> set (trace (snd (main w_stuck)))
   \<and> marks (trace (snd (main w_stuck))) = [Clicked, BackedOff 2000, Clicked, BackedOff 4000, Clicked]"
proof -
  have v: "verdicts (trace (snd (main w_stuck))) = replicate WAKE_MAX_ATTEMPTS StillPresent"
    by (simp add: run_defs w_stuck_def w_awake_def timeout_error_def numeral_3_eq_3)
  from exhausted_attempts_fail [OF v] v show ?thesis
    by (simp only: rounds_upt simp_thms)
qed

section \<open>Success at the third attempt\<close>

text \<open>
  C9. With three attempts allowed: when the re-queries of a run found the button still
  present after the first and the second click and gone after the third, the run ends
  normally with the success message, after exactly two backoff sleeps, one after each of
  the first two clicks and none after the third.
\<close>

theorem third_attempt_succeeds:
  assumes v: "verdicts (trace (snd (main w))) = [StillPresent, StillPresent, Gone]"
  shows "WAKE_MAX_ATTEMPTS = 3
     \<and> fst (main w) = Normal ()
     \<and> marks (trace (snd (main w))) = [Clicked, BackedOff 2000, Clicked, BackedOff 4000, Clicked]
     \<and> backoffs (marks (trace (snd (main w)))) = [2000, 4000]
     \<and> length (succeeded_labels (trace (snd (main w)))) = 1"
proof -
  obtain k where k: "run_shape k (fst (main w)) (trace (snd (main w)))"
    using main_shape by blast
  have v': "verdicts (trace (snd (main w))) = replicate 2 StillPresent @ [Gone]"
    using v by (simp add: numeral_2_eq_2)
  have a: "replicate k StillPresent \<noteq> replicate 2 StillPresent @ [Gone]"
    "replicate (Suc k) StillPresent \<noteq> replicate 2 StillPresent @ [Gone]"
    "replicate k StillPresent @ [Errored] \<noteq> replicate 2 StillPresent @ [Gone]"
    using replicate_snoc_neq [of Gone StillPresent 2 k]
      replicate_snoc_neq [of Gone StillPresent 2 "Suc k"] by (auto simp del: replicate_Suc)
  from k v' a have ex: "fst (main w) = Normal ()"
    "marks (trace (snd (main w))) = rounds 1 k @ [Clicked]"
    "replicate k StillPresent @ [Gone] = replicate 2 StillPresent @ [Gone]"
    "length (succeeded_labels (trace (snd (main w)))) = 1"
    unfolding run_shape_def by (auto simp del: replicate_Suc)
  from ex(3) have "length (replicate k StillPresent) = length (replicate 2 StillPresent)"
    by (simp del: replicate_Suc)
  then have k2: "k = 2" by simp
  from ex k2 show ?thesis by (simp add: rounds_1_2 WAKE_MAX_ATTEMPTS_def)
qed

theorem third_attempt_succeeds_witness:
  "verdicts (trace (snd (main w_third))) = [StillPresent, StillPresent, Gone]
   \<and> fst (main w_third) = Normal ()
   \<and> marks (trace (snd (main w_third))) = [Clicked, BackedOff 2000, Clicked, BackedOff 4000, Clicked]"
proof -
  have v: "verdicts (trace (snd (main w_third))) = [StillPresent, StillPresent, Gone]"
    by (simp add: run_defs w_third_def w_stuck_def w_awake_def timeout_error_def)
  from third_attempt_succeeds [OF v] v show ?thesis by simp
qed

section \<open>The label of the success message\<close>




lemma quiet_polls [simp]:
  "marks (replicate n (Sleep PollInterval ms)) = []"
  "clicked_labels (replicate n (Sleep PollInterval ms)) = []"
  "verdicts (replicate n (Sleep PollInterval ms)) = []"
  "succeeded_labels (replicate n (Sleep PollInterval ms)) = []"
  "recorded_labels (replicate n (Sleep PollInterval ms)) = []"
  by (induction n) simp_all


section \<open>Nothing to wake\<close>

text \<open>
  C4. When the page is opened and no context has the button at any moment before the
  polling deadline of the first attempt, the run ends normally with the message that the
  application is already awake, and it has not clicked (nor slept a backoff).
\<close>

theorem already_awake_succeeds_without_click:
  assumes url: "truthy (STREAMLIT_URL w)"
    and up: "launch w = None" "newPage w = None" "setUserAgent w = None" "setViewport w = None"
    and nav: "goto w = Inr (Some resp)" "status resp < 400"
    and none: "\<forall>t. t < t0 w + PAGE_LOAD_GRACE_PERIOD_MS + WAKE_BUTTON_POLL_TIMEOUT_MS \<longrightarrow>
                 (\<forall>c \<in> fst ` set (contexts w t). query w t c = Inr None)"
  shows "fst (main w) = Normal ()
     \<and> marks (trace (snd (main w))) = []
     \<and> ConsoleLog (NotFoundAlreadyAwake 1 WAKE_MAX_ATTEMPTS) \<in> set (trace (snd (main w)))
     \<and> (\<exists>ms. ConsoleLog (SucceededAlreadyAwake ms) \<in> set (trace (snd (main w))))
     \<and> succeeded_labels (trace (snd (main w))) = []"
proof -
  let ?s1 = "emit (ConsoleLog (Starting (or_else (STREAMLIT_URL w) []))) (initial w)"
  obtain s7 where o: "open_page w ?s1 = (Normal (), s7)"
    and n7: "now s7 = t0 w + PAGE_LOAD_GRACE_PERIOD_MS"
    and m7: "marks (trace s7) = []" "succeeded_labels (trace s7) = []"
    using up nav
    by (simp add: open_page_def bind_def await_unit_def emit_def sleep_def Let_def initial_def)
  obtain r1 s8 where f: "findAndClickWakeButton w s7 = (r1, s8)"
    by (cases "findAndClickWakeButton w s7")
  have "fst (poll w (now s7 + WAKE_BUTTON_POLL_TIMEOUT_MS) s7) = Normal None"
    using none n7 by (intro poll_nothing) simp
  with f have r1: "r1 = Normal None" by (simp add: findAndClickWakeButton_def)
  from f have "located r1 s7 s8" by (simp add: findAndClickWakeButton_def poll_located)
  with r1 m7 have m8: "marks (trace s8) = []" "succeeded_labels (trace s8) = []"
    by (simp_all add: located_def unchanged_def)
  let ?s9 = "emit (ConsoleLog (SucceededAlreadyAwake (now s8 - t0 w)))
              (emit (ConsoleLog (NotFoundAlreadyAwake 1 WAKE_MAX_ATTEMPTS)) s8)"
  from f r1 have b: "attempt_body w (t0 w) 1 s7 = (Normal Return, ?s9)"
    by (simp add: attempt_body_def bind_def)
  then have l: "attempts w (t0 w) 1 s7 = (Normal Return, ?s9)"
    by (subst attempts.simps) (simp add: WAKE_MAX_ATTEMPTS_def)
  from o l have t: "try_block w (t0 w) ?s1 = (Normal (), ?s9)"
    by (simp add: try_block_def bind_def)
  obtain r' s' where fin: "finally_block w (catch_block w (Normal (), ?s9)) = (r', s')"
    by (cases "finally_block w (catch_block w (Normal (), ?s9))")
  from url t fin have m: "main w = (r', s')" by (simp add: main_unfold)
  from catch_finally_obs [OF fin] m8
  have "r' = Normal ()" "marks (trace s') = []" "succeeded_labels (trace s') = []"
    "set (trace ?s9) \<subseteq> set (trace s')"
    by (simp_all add: emit_def)
  moreover have "ConsoleLog (NotFoundAlreadyAwake 1 WAKE_MAX_ATTEMPTS) \<in> set (trace ?s9)"
    "ConsoleLog (SucceededAlreadyAwake (now s8 - t0 w)) \<in> set (trace ?s9)"
    by (simp_all add: emit_def)
  ultimately show ?thesis using m by auto
qed

theorem already_awake_succeeds_without_click_witness:
  "fst (main w_awake) = Normal ()
   \<and> marks (trace (snd (main w_awake))) = []
   \<and> (\<exists>ms. ConsoleLog (SucceededAlreadyAwake ms) \<in> set (trace (snd (main w_awake))))"
  using already_awake_succeeds_without_click [of w_awake "Response 200 ''OK''"]
  by (simp add: w_awake_def)

section \<open>The first actionable context wins\<close>

lemma scan_first_actionable:
  "scan w cs s = (Normal found, s') \<Longrightarrow>
     found = map_option (\<lambda>(c, l). (l, c)) (find (\<lambda>(c, l). actionable w (now s) c) cs)"
proof (induction cs arbitrary: s)
  case Nil
  then show ?case by simp
next
  case (Cons a cs)
  obtain c label where a: "a = (c, label)" by (cases a)
  from Cons.prems show ?case
    unfolding a
    by (auto simp: emit_def sleep_def Let_def actionable_def
        split: sum.splits option.splits if_splits dest!: Cons.IH)
qed

lemma scan_None_now: "scan w cs s = (Normal None, s') \<Longrightarrow> now s' = now s"
proof (induction cs arbitrary: s)
  case Nil
  then show ?case by simp
next
  case (Cons a cs)
  obtain c label where a: "a = (c, label)" by (cases a)
  from Cons.prems show ?case
    unfolding a
    by (auto simp: emit_def sleep_def Let_def
        split: sum.splits option.splits if_splits dest!: Cons.IH)
qed

lemma scan_contexts_first:
  assumes "scan w (contexts w (now s)) s = (Normal found, s')"
  shows "first_actionable w (now s) = map_option (\<lambda>(l, c). (c, l)) found"
proof -
  from scan_first_actionable [OF assms]
  have "found = map_option (\<lambda>(c, l). (l, c)) (first_actionable w (now s))"
    by (simp add: first_actionable_def contexts_def)
  then show ?thesis
    by (cases "first_actionable w (now s)") auto
qed

lemma poll_first_actionable:
  "poll w d s = (Normal found, s') \<Longrightarrow>
     (found = None \<longrightarrow>
        (\<forall>k. now s + k * WAKE_BUTTON_POLL_INTERVAL_MS < d \<longrightarrow>
              first_actionable w (now s + k * WAKE_BUTTON_POLL_INTERVAL_MS) = None))
     \<and> (\<forall>label c. found = Some (label, c) \<longrightarrow>
           (\<exists>k. now s + k * WAKE_BUTTON_POLL_INTERVAL_MS < d
              \<and> first_actionable w (now s + k * WAKE_BUTTON_POLL_INTERVAL_MS) = Some (c, label)
              \<and> (\<forall>j<k. first_actionable w (now s + j * WAKE_BUTTON_POLL_INTERVAL_MS) = None)))"
proof (induction w d s rule: poll.induct)
  case (1 w d s)
  let ?I = WAKE_BUTTON_POLL_INTERVAL_MS
  show ?case
  proof (cases "now s < d")
    case False
    with "1.prems" have "found = None" by (auto simp: poll.simps [of w d s])
    moreover from False have "\<not> now s + k * ?I < d" for k by simp
    ultimately show ?thesis by simp
  next
    case True
    obtain r1 s1 where sc: "scan w (contexts w (now s)) s = (r1, s1)"
      by (cases "scan w (contexts w (now s)) s")
    show ?thesis
    proof (cases "r1 = Normal None")
      case False
      with True sc "1.prems" have r1: "r1 = Normal found" and f: "found \<noteq> None"
        by (auto simp: poll.simps [of w d s] split: completion.splits option.splits)
      from scan_contexts_first [OF sc [unfolded r1]]
      have fa: "first_actionable w (now s) = map_option (\<lambda>(l, c). (c, l)) found" .
      show ?thesis
      proof (intro conjI allI impI)
        fix k
        assume "found = None"
        with f show "first_actionable w (now s + k * ?I) = None"
          by simp
      next
        fix label c
        assume "found = Some (label, c)"
        with fa True show "\<exists>k. now s + k * ?I < d
              \<and> first_actionable w (now s + k * ?I) = Some (c, label)
              \<and> (\<forall>j<k. first_actionable w (now s + j * ?I) = None)"
          by (intro exI [of _ 0]) simp
      qed
    next
      case rn: True
      let ?s2 = "sleep PollInterval ?I s1"
      from rn True sc "1.prems" have p: "poll w d ?s2 = (Normal found, s')"
        by (simp add: poll.simps [of w d s])
      from scan_None_now [OF sc [unfolded rn]] have n2: "now ?s2 = now s + ?I"
        by (simp add: sleep_def)
      from scan_contexts_first [OF sc [unfolded rn]]
      have fa0: "first_actionable w (now s) = None" by simp
      note ih = "1.IH" [OF True sc [symmetric] _ _ p, unfolded n2]
      have sh: "now s + ?I + k * ?I = now s + Suc k * ?I" for k by simp
      show ?thesis
      proof (intro conjI allI impI)
        fix k
        assume fn: "found = None" and lt: "now s + k * ?I < d"
        show "first_actionable w (now s + k * ?I) = None"
        proof (cases k)
          case 0
          with fa0 show ?thesis by simp
        next
          case (Suc k')
          with lt have "now s + ?I + k' * ?I < d" by simp
          with ih rn fn have "first_actionable w (now s + ?I + k' * ?I) = None" by simp
          with Suc show ?thesis by (simp add: add.assoc)
        qed
      next
        fix label c
        assume fs: "found = Some (label, c)"
        with ih rn obtain k' where k': "now s + ?I + k' * ?I < d"
          "first_actionable w (now s + ?I + k' * ?I) = Some (c, label)"
          "\<forall>j<k'. first_actionable w (now s + ?I + j * ?I) = None"
          by auto
        have "\<forall>j<Suc k'. first_actionable w (now s + j * ?I) = None"
        proof (intro allI impI)
          fix j assume "j < Suc k'"
          show "first_actionable w (now s + j * ?I) = None"
          proof (cases j)
            case 0
            with fa0 show ?thesis by simp
          next
            case (Suc j')
            with \<open>j < Suc k'\<close> k'(3) have "first_actionable w (now s + ?I + j' * ?I) = None" by simp
            with Suc show ?thesis by (simp add: add.assoc)
          qed
        qed
        with k'(1,2) show "\<exists>k. now s + k * ?I < d
              \<and> first_actionable w (now s + k * ?I) = Some (c, label)
              \<and> (\<forall>j<k. first_actionable w (now s + j * ?I) = None)"
          by (intro exI [of _ "Suc k'"]) (simp add: add.assoc)
      qed
    qed
  qed
qed

text \<open>
  C3. Whenever \<open>findAndClickWakeButton\<close> returns a context, it is the first actionable
  context, page first and then the frames in driver order, of the first poll at which any
  context is actionable: never a later context of that poll, whatever the later contexts
  contain, and exactly one click has been issued. Whenever it returns \<open>null\<close>, no context
  was actionable at any poll before the deadline, and nothing has been clicked.
\<close>

theorem first_actionable_context_wins:
  assumes "findAndClickWakeButton w s = (Normal found, s')"
  shows "(found = None \<longrightarrow>
            (\<forall>k. k * WAKE_BUTTON_POLL_INTERVAL_MS < WAKE_BUTTON_POLL_TIMEOUT_MS \<longrightarrow>
                  first_actionable w (now s + k * WAKE_BUTTON_POLL_INTERVAL_MS) = None))
     \<and> (\<forall>label c. found = Some (label, c) \<longrightarrow>
           (\<exists>k. k * WAKE_BUTTON_POLL_INTERVAL_MS < WAKE_BUTTON_POLL_TIMEOUT_MS
              \<and> first_actionable w (now s + k * WAKE_BUTTON_POLL_INTERVAL_MS) = Some (c, label)
              \<and> (\<forall>j<k. first_actionable w (now s + j * WAKE_BUTTON_POLL_INTERVAL_MS) = None)))
     \<and> marks (trace s') = marks (trace s) @ (if found = None then [] else [Clicked])"
proof -
  from assms have p: "poll w (now s + WAKE_BUTTON_POLL_TIMEOUT_MS) s = (Normal found, s')"
    by (simp add: findAndClickWakeButton_def)
  from poll_located [OF p] have "marks (trace s') = marks (trace s) @ (if found = None then [] else [Clicked])"
    by (cases found) (auto simp: located_def)
  with poll_first_actionable [OF p] show ?thesis by simp
qed

theorem first_actionable_context_wins_witness:
  "findAndClickWakeButton w_frames_late (initial w_frames_late)
     = (Normal (Some (''frame [no URL]'', Frame 2)),
        \<lparr>now = 2250,
         trace = [Sleep PollInterval 1000, Sleep PollInterval 1000,
                  ConsoleLog (Detected ''frame https://a.example''),
                  ConsoleLog (Detected ''frame [no URL]''),
                  Sleep PreClick 250, Click (Frame 2) 5],
         browser = False, lastClickedLabel = None, lastClickedContext = None\<rparr>)
   \<and> frames w_frames_late 2000 = [1, 2, 3]
   \<and> actionable w_frames_late 2000 Page = False
   \<and> actionable w_frames_late 2000 (Frame 1) = False
   \<and> actionable w_frames_late 2000 (Frame 2) = True
   \<and> actionable w_frames_late 2000 (Frame 3) = True
   \<and> first_actionable w_frames_late 0 = None
   \<and> first_actionable w_frames_late 1000 = None
   \<and> first_actionable w_frames_late 2000 = Some (Frame 2, ''frame [no URL]'')"
proof -
  have sc: "findAndClickWakeButton w_frames_late (initial w_frames_late)
     = (Normal (Some (''frame [no URL]'', Frame 2)),
        \<lparr>now = 2250,
         trace = [Sleep PollInterval 1000, Sleep PollInterval 1000,
                  ConsoleLog (Detected ''frame https://a.example''),
                  ConsoleLog (Detected ''frame [no URL]''),
                  Sleep PreClick 250, Click (Frame 2) 5],
         browser = False, lastClickedLabel = None, lastClickedContext = None\<rparr>)"
    by (simp add: run_defs w_frames_late_def w_frames_def w_awake_def)
  from first_actionable_context_wins [OF sc] sc show ?thesis
    by (simp add: first_actionable_def actionable_def frame_label_def
        w_frames_late_def w_frames_def w_awake_def)
qed

section \<open>A failed navigation\<close>

text \<open>
  C7. When the navigation resolves without a response, or with a response of status 400 or
  more, the run fails (exit status 1) without any click; the reason and the error are
  written to the console, and the report appended to the summary file, when one is
  configured, contains the URL, the reason and the message of the error.
\<close>

theorem navigation_error_fails_before_click:
  assumes url: "STREAMLIT_URL w = Some url" "url \<noteq> []"
    and up: "launch w = None" "newPage w = None" "setUserAgent w = None" "setViewport w = None"
    and g: "(goto w = Inr None \<and> msg = msg_no_response)
       \<or> (\<exists>resp. goto w = Inr (Some resp) \<and> 400 \<le> status resp
              \<and> msg = ''Unexpected response status: '' @ show_nat (status resp))"
    and report: "report = buildFailureSummary
                   [''URL: '' @ url, ''Reason: '' @ reason_failed, ''Error: '' @ msg]"
  shows "fst (main w) = ProcessExit 1
     \<and> (\<forall>c h. Click c h \<notin> set (trace (snd (main w))))
     \<and> ConsoleError reason_failed \<in> set (trace (snd (main w)))
     \<and> ConsoleErrorObj (JsError ''Error'' msg) \<in> set (trace (snd (main w)))
     \<and> (\<forall>path. SUMMARY_PATH w = Some path \<and> path \<noteq> [] \<longrightarrow>
           AppendFile path report \<in> set (trace (snd (main w))))
     \<and> str_includes report url \<and> str_includes report reason_failed \<and> str_includes report msg"
proof -
  have run: "fst (main w) = ProcessExit 1
     \<and> (\<forall>c h. Click c h \<notin> set (trace (snd (main w))))
     \<and> ConsoleError reason_failed \<in> set (trace (snd (main w)))
     \<and> ConsoleErrorObj (JsError ''Error'' msg) \<in> set (trace (snd (main w)))
     \<and> (\<forall>path. SUMMARY_PATH w = Some path \<and> path \<noteq> [] \<longrightarrow>
           AppendFile path report \<in> set (trace (snd (main w))))"
    using g
  proof (elim disjE conjE exE)
    assume "goto w = Inr None" "msg = msg_no_response"
    with url up report show ?thesis
      by (auto simp: main_def initial_def emit_def bind_def try_block_def open_page_def
          await_unit_def catch_block_def finally_block_def fail_def appendFailureSummary_def
          Let_def message_or_err_def msg_no_response_def split: option.splits)
  next
    fix resp
    assume "goto w = Inr (Some resp)" "400 \<le> status resp"
      "msg = ''Unexpected response status: '' @ show_nat (status resp)"
    with url up report show ?thesis
      by (auto simp: main_def initial_def emit_def bind_def try_block_def open_page_def
          await_unit_def catch_block_def finally_block_def fail_def appendFailureSummary_def
          Let_def message_or_err_def split: option.splits)
  qed
  with report_includes [of url reason_failed msg] report show ?thesis by simp
qed

theorem navigation_error_fails_before_click_witness:
  "fst (main w_500) = ProcessExit 1
   \<and> (\<forall>c h. Click c h \<notin> set (trace (snd (main w_500))))
   \<and> AppendFile ''summary.md''
        (buildFailureSummary [''URL: https://app.example'', ''Reason: Failed to keep Streamlit app awake'',
                              ''Error: Unexpected response status: 500''])
       \<in> set (trace (snd (main w_500)))
   \<and> str_includes
        (buildFailureSummary [''URL: https://app.example'', ''Reason: Failed to keep Streamlit app awake'',
                              ''Error: Unexpected response status: 500''])
        ''https://app.example''"
  using navigation_error_fails_before_click
          [of w_500 "''https://app.example''" "''Unexpected response status: 500''"
              "buildFailureSummary [''URL: https://app.example'',
                 ''Reason: Failed to keep Streamlit app awake'',
                 ''Error: Unexpected response status: 500'']"]
  by (simp add: w_500_def w_awake_def reason_failed_def show_nat.simps)

end
